theory Spec2Isabelle
  imports Main "HOL-Library.Char_ord" "HOL-Library.List_Lexorder"
begin

section \<open>Values of the bus: QString, QVariant, QVariantMap, QDBusError\<close>

text \<open>
  The property cache of \<^verbatim>\<open>src/dbuspropertycache.cpp\<close> is built on a few Qt value types.
  They are embedded as follows.
  \<^item> \<^verbatim>\<open>QString\<close> is a \<open>string\<close>; \<^verbatim>\<open>isEmpty()\<close> is comparison with \<open>[]\<close>.
  \<^item> \<^verbatim>\<open>QVariant\<close> is a sum of the payloads the cache is used with. \<open>Invalid\<close> is the
    default-constructed \<^verbatim>\<open>QVariant()\<close>; \<open>DBusVariant v\<close> is a variant that holds a
    \<^verbatim>\<open>QDBusVariant\<close> wrapping \<open>v\<close>. Equality of variants is equality of the datatype.
  \<^item> \<^verbatim>\<open>QVariantMap\<close> (\<^verbatim>\<open>QMap<QString, QVariant>\<close>) is an association list in
    iteration order, which for a \<^verbatim>\<open>QMap\<close> is ascending key order with one entry per key.
  \<^item> \<^verbatim>\<open>QDBusError\<close> is a record of its type code and message; \<^verbatim>\<open>isValid()\<close> is
    \<^verbatim>\<open>code != NoError\<close>.
\<close>

type_synonym QString = string

datatype QVariant =
    Invalid
  | Bool bool
  | Num int
  | Str QString
  | DBusVariant QVariant

type_synonym QVariantMap = "(QString \<times> QVariant) list"

text \<open>\<^verbatim>\<open>QMap::constFind\<close> / \<^verbatim>\<open>find\<close>: \<open>None\<close> stands for the end iterator.\<close>

definition constFind :: "QVariantMap \<Rightarrow> QString \<Rightarrow> QVariant option" where
  "constFind m k = map_of m k"

text \<open>\<^verbatim>\<open>QMap::value(key)\<close>: a default-constructed value when the key is missing.\<close>

definition qmap_value :: "QVariantMap \<Rightarrow> QString \<Rightarrow> QVariant" where
  "qmap_value m k = (case constFind m k of None \<Rightarrow> Invalid | Some v \<Rightarrow> v)"

definition qmap_contains :: "QVariantMap \<Rightarrow> QString \<Rightarrow> bool" where
  "qmap_contains m k = (constFind m k \<noteq> None)"

definition isEmpty :: "'a list \<Rightarrow> bool" where
  "isEmpty m = (m = [])"

text \<open>\<^verbatim>\<open>QMap::insert(key, value)\<close>: keeps the keys ascending, replaces the value of a key
  that is present.\<close>

fun qmap_insert :: "QString \<Rightarrow> QVariant \<Rightarrow> QVariantMap \<Rightarrow> QVariantMap" where
  "qmap_insert k v [] = [(k, v)]"
| "qmap_insert k v ((k', v') # m) =
     (if k < k' then (k, v) # (k', v') # m
      else if k = k' then (k, v) # m
      else (k', v') # qmap_insert k v m)"

text \<open>Assignment through an iterator returned by \<^verbatim>\<open>find\<close>
  (\<^verbatim>\<open>cacheIt.value() = v\<close>): the first entry with the key gets the value.\<close>

fun qmap_assign :: "QString \<Rightarrow> QVariant \<Rightarrow> QVariantMap \<Rightarrow> QVariantMap" where
  "qmap_assign k v [] = []"
| "qmap_assign k v ((k', v') # m) =
     (if k = k' then (k', v) # m else (k', v') # qmap_assign k v m)"

text \<open>\<^verbatim>\<open>m[key] = value\<close>: \<^verbatim>\<open>operator[]\<close> finds the entry, or inserts one, and the
  assignment stores the value.\<close>

definition qmap_set :: "QString \<Rightarrow> QVariant \<Rightarrow> QVariantMap \<Rightarrow> QVariantMap" where
  "qmap_set k v m =
     (case constFind m k of None \<Rightarrow> qmap_insert k v m | Some _ \<Rightarrow> qmap_assign k v m)"

text \<open>The shape every \<^verbatim>\<open>QMap\<close> has: keys strictly ascending.\<close>

definition qmap_ok :: "QVariantMap \<Rightarrow> bool" where
  "qmap_ok m = sorted_wrt (<) (map fst m)"

text \<open>
  \<^verbatim>\<open>QDBusError::ErrorType\<close> is declared by Qt, not by this repository. The cache only
  compares type codes with each other, with \<^verbatim>\<open>NoError\<close> (through \<^verbatim>\<open>isValid\<close>) and with
  \<^verbatim>\<open>ServiceUnknown\<close>; the datatype lists the codes the library names or its
  documentation mentions, and \<open>Other\<close> for the rest.
\<close>

datatype ErrorType =
    NoError
  | Other
  | ServiceUnknown
  | UnknownInterface
  | UnknownObject

record QDBusError =
  err_type :: ErrorType
  err_message :: QString

definition QDBusError_default :: QDBusError where
  "QDBusError_default = \<lparr>err_type = NoError, err_message = []\<rparr>"

definition error_isValid :: "QDBusError \<Rightarrow> bool" where
  "error_isValid e = (err_type e \<noteq> NoError)"


section \<open>Target (include/dbustarget.h)\<close>

text \<open>The bus of a Target is identified by its connection name, as \<^verbatim>\<open>operator==\<close> does.\<close>

record Target =
  m_bus :: QString
  m_service :: QString
  m_path :: QString
  m_interface :: QString

text \<open>\<^verbatim>\<open>Target()\<close>: "Construct an invalid target."\<close>

definition Target_default :: Target where
  "Target_default = \<lparr>m_bus = [], m_service = [], m_path = [], m_interface = []\<rparr>"

definition Target_isValid :: "Target \<Rightarrow> bool" where
  "Target_isValid t =
     (\<not> isEmpty (m_service t) \<and> \<not> isEmpty (m_path t) \<and> \<not> isEmpty (m_interface t))"

definition withInterface :: "Target \<Rightarrow> QString \<Rightarrow> Target" where
  "withInterface t i =
     \<lparr>m_bus = m_bus t, m_service = m_service t, m_path = m_path t, m_interface = i\<rparr>"

text \<open>\<^verbatim>\<open>k_property_interface\<close> and \<^verbatim>\<open>k_properties_changed_signal_name\<close>
  (dbusutilities).\<close>

definition k_property_interface :: QString where
  "k_property_interface = ''org.freedesktop.DBus.Properties''"

definition k_properties_changed_signal_name :: QString where
  "k_properties_changed_signal_name = ''PropertiesChanged''"

text \<open>\<^verbatim>\<open>toDBusArgVariant\<close>: the generic template is \<^verbatim>\<open>QVariant::fromValue\<close> (the string
  arguments below are written \<open>Str s\<close>); the \<^verbatim>\<open>QVariant\<close> specialisation wraps the value in
  a \<^verbatim>\<open>QDBusVariant\<close> unless it already holds one.\<close>

fun toDBusArgVariant :: "QVariant \<Rightarrow> QVariant" where
  "toDBusArgVariant (DBusVariant v) = DBusVariant v"
| "toDBusArgVariant v = DBusVariant v"

record QDBusMessage =
  msg_service :: QString
  msg_path :: QString
  msg_interface :: QString
  msg_member :: QString
  msg_arguments :: "QVariant list"

text \<open>\<^verbatim>\<open>Target::createMethodCall(method, args...)\<close>, the arguments already converted.\<close>

definition createMethodCall :: "Target \<Rightarrow> QString \<Rightarrow> QVariant list \<Rightarrow> QDBusMessage" where
  "createMethodCall t method args =
     \<lparr>msg_service = m_service t, msg_path = m_path t, msg_interface = m_interface t,
      msg_member = method, msg_arguments = args\<rparr>"


section \<open>PropertyCacheThreadData: one thread's view of a target\<close>

text \<open>
  The six signals shared by \<^verbatim>\<open>PropertyCacheThreadData\<close> and \<^verbatim>\<open>PropertyCache\<close>.
\<close>

datatype Signal =
    AvailableChanged bool
  | ErrorChanged QDBusError
  | Ready
  | Lost
  | PropertyChanged QString QVariant
  | PropertiesReset QVariantMap

datatype SignalKind =
    KAvailableChanged | KErrorChanged | KReady | KLost | KPropertyChanged | KPropertiesReset

fun kind :: "Signal \<Rightarrow> SignalKind" where
  "kind (AvailableChanged _) = KAvailableChanged"
| "kind (ErrorChanged _) = KErrorChanged"
| "kind Ready = KReady"
| "kind Lost = KLost"
| "kind (PropertyChanged _ _) = KPropertyChanged"
| "kind (PropertiesReset _) = KPropertiesReset"

text \<open>
  The fields of the class keep their names with the prefix \<open>td_\<close> (the backend has fields
  of the same names). \<open>td_connections\<close> is the connection list Qt keeps in the sender
  object: one entry per \<^verbatim>\<open>QObject::connect\<close> from a signal of this object to the same
  signal of the \<^verbatim>\<open>PropertyCache\<close> with the given identity, in the order of connection.
\<close>

record PropertyCacheThreadData =
  td_target :: Target
  td_properties :: QVariantMap
  td_error :: QDBusError
  td_available :: bool
  td_connections :: "(SignalKind \<times> nat) list"

text \<open>
  Signals are delivered by direct connections: the slots run inside \<^verbatim>\<open>emit\<close>. An
  emission is recorded with the state of the object at that moment, which is the state
  that any \<^verbatim>\<open>get\<close>, \<^verbatim>\<open>getAll\<close> or \<^verbatim>\<open>contains\<close> of a listener reads.
\<close>

record Emission =
  signal :: Signal
  seen :: PropertyCacheThreadData

type_synonym Emitting = "PropertyCacheThreadData \<times> Emission list"

definition emit :: "Signal \<Rightarrow> Emitting \<Rightarrow> Emitting" where
  "emit sg s = (fst s, snd s @ [\<lparr>signal = sg, seen = fst s\<rparr>])"

text \<open>The first loop of \<^verbatim>\<open>reset\<close>, over the entries of the new \<^verbatim>\<open>m_properties\<close>.\<close>

fun reset_changed :: "QVariantMap \<Rightarrow> QVariantMap \<Rightarrow> Emitting \<Rightarrow> Emitting" where
  "reset_changed before [] s = s"
| "reset_changed before ((k, v) # rest) s =
     (let beforeIt = constFind before k in
      if beforeIt = None \<or> the beforeIt \<noteq> v
      then reset_changed before rest (emit (PropertyChanged k v) s)
      else reset_changed before rest s)"

text \<open>The second loop, over the entries of \<^verbatim>\<open>before\<close>.\<close>

fun reset_removed :: "QVariantMap \<Rightarrow> Emitting \<Rightarrow> Emitting" where
  "reset_removed [] s = s"
| "reset_removed ((k, v) # rest) s =
     (if \<not> qmap_contains (td_properties (fst s)) k
      then reset_removed rest (emit (PropertyChanged k Invalid) s)
      else reset_removed rest s)"

text \<open>The body of \<^verbatim>\<open>PropertyCacheThreadData::reset\<close> after its assertion.\<close>

definition reset_body :: "QVariantMap \<Rightarrow> QDBusError \<Rightarrow> PropertyCacheThreadData \<Rightarrow> Emitting" where
  "reset_body values error d =
     (let available = \<not> error_isValid error;
          wasAvailable = td_available d;
          before = td_properties d;
          errorChange = (err_type (td_error d) \<noteq> err_type error);
          d1 = d\<lparr>td_available := available, td_error := error, td_properties := values\<rparr>;
          s0 = (d1, []);
          s1 = (if wasAvailable \<noteq> td_available (fst s0)
                then emit (AvailableChanged (td_available (fst s0))) s0 else s0);
          s2 = (if errorChange then emit (ErrorChanged error) s1 else s1);
          s3 = (if \<not> isEmpty values \<or> \<not> isEmpty before
                then emit (PropertiesReset (td_properties (fst s2))) s2 else s2);
          s4 = reset_changed before (td_properties (fst s3)) s3;
          s5 = reset_removed before s4;
          s6 = (if wasAvailable \<and> \<not> td_available (fst s5) then emit Lost s5 else s5);
          s7 = (if \<not> wasAvailable \<and> td_available (fst s6) then emit Ready s6 else s6)
      in s7)"

text \<open>
  \<^verbatim>\<open>PropertyCacheThreadData::reset\<close>. \<^verbatim>\<open>Q_ASSERT(available || values.isEmpty())\<close>
  aborts the program when it fails: the result is \<open>None\<close>. (A build with
  \<^verbatim>\<open>QT_NO_DEBUG\<close> compiles the assertion out and runs \<open>reset_body\<close> on every input.)
\<close>

definition reset :: "QVariantMap \<Rightarrow> QDBusError \<Rightarrow> PropertyCacheThreadData \<Rightarrow> Emitting option" where
  "reset values error d =
     (let available = \<not> error_isValid error in
      if \<not> (available \<or> isEmpty values) then None
      else Some (reset_body values error d))"

text \<open>\<^verbatim>\<open>PropertyCacheThreadData::changeProperties\<close>: two loops over \<^verbatim>\<open>values\<close>.\<close>

fun changeProperties_update :: "QVariantMap \<Rightarrow> QVariantMap \<Rightarrow> QVariantMap" where
  "changeProperties_update [] props = props"
| "changeProperties_update ((k, v) # rest) props =
     changeProperties_update rest (qmap_set k v props)"

fun changeProperties_emit :: "QVariantMap \<Rightarrow> Emitting \<Rightarrow> Emitting" where
  "changeProperties_emit [] s = s"
| "changeProperties_emit ((k, v) # rest) s =
     changeProperties_emit rest (emit (PropertyChanged k v) s)"

definition changeProperties :: "QVariantMap \<Rightarrow> PropertyCacheThreadData \<Rightarrow> Emitting" where
  "changeProperties values d =
     changeProperties_emit values
       (d\<lparr>td_properties := changeProperties_update values (td_properties d)\<rparr>, [])"

text \<open>
  What the connected \<^verbatim>\<open>PropertyCache\<close> objects re-emit for a recorded sequence: each
  emission reaches, in connection order, every connection made for that signal.
\<close>

definition reemitted :: "(SignalKind \<times> nat) list \<Rightarrow> Emission list \<Rightarrow> (nat \<times> Signal) list" where
  "reemitted conns log =
     concat (map (\<lambda>e. map (\<lambda>c. (snd c, signal e)) (filter (\<lambda>c. fst c = kind (signal e)) conns)) log)"


section \<open>PropertyCache and PropertyCachePrivate: the handle\<close>

text \<open>
  A \<^verbatim>\<open>PropertyCache\<close> is identified by a number \<open>q\<close>. Its private part holds the flag
  \<^verbatim>\<open>initialized\<close>; the \<^verbatim>\<open>PropertyCacheThreadData\<close> it points to (\<^verbatim>\<open>d->data\<close>) is
  shared with the other handles of the thread and is passed to every operation.
\<close>

record PropertyCachePrivate =
  initialized :: bool

definition PropertyCache_isAvailable :: "PropertyCachePrivate \<Rightarrow> PropertyCacheThreadData \<Rightarrow> bool" where
  "PropertyCache_isAvailable p d = (initialized p \<and> td_available d)"

definition PropertyCache_error :: "PropertyCachePrivate \<Rightarrow> PropertyCacheThreadData \<Rightarrow> QDBusError" where
  "PropertyCache_error p d = (if initialized p then td_error d else QDBusError_default)"

definition PropertyCache_get :: "PropertyCachePrivate \<Rightarrow> PropertyCacheThreadData \<Rightarrow> QString \<Rightarrow> QVariant" where
  "PropertyCache_get p d property =
     (if \<not> initialized p then Invalid else qmap_value (td_properties d) property)"

definition PropertyCache_contains :: "PropertyCachePrivate \<Rightarrow> PropertyCacheThreadData \<Rightarrow> QString \<Rightarrow> bool" where
  "PropertyCache_contains p d property =
     (if \<not> initialized p then False else qmap_contains (td_properties d) property)"

definition PropertyCache_getAll :: "PropertyCachePrivate \<Rightarrow> PropertyCacheThreadData \<Rightarrow> QVariantMap" where
  "PropertyCache_getAll p d = (if \<not> initialized p then [] else td_properties d)"

text \<open>The loop of \<^verbatim>\<open>PropertyCachePrivate::initialize\<close>: signals emitted by \<open>q\<close> itself.\<close>

fun initialize_properties :: "nat \<Rightarrow> QVariantMap \<Rightarrow> (nat \<times> Signal) list \<Rightarrow> (nat \<times> Signal) list" where
  "initialize_properties q [] out = out"
| "initialize_properties q ((k, v) # rest) out =
     initialize_properties q rest (out @ [(q, PropertyChanged k v)])"

text \<open>
  \<^verbatim>\<open>PropertyCachePrivate::initialize\<close>. The result is the private part, the thread data
  (with the six new connections) and the signals \<open>q\<close> emitted.
\<close>

definition PropertyCachePrivate_initialize ::
  "nat \<Rightarrow> PropertyCachePrivate \<Rightarrow> PropertyCacheThreadData
     \<Rightarrow> PropertyCachePrivate \<times> PropertyCacheThreadData \<times> (nat \<times> Signal) list" where
  "PropertyCachePrivate_initialize q p d =
     (if initialized p then (p, d, [])
      else
        let d1 = d\<lparr>td_connections := td_connections d @
                   [(KAvailableChanged, q), (KErrorChanged, q), (KReady, q), (KLost, q),
                    (KPropertyChanged, q), (KPropertiesReset, q)]\<rparr>;
            p1 = p\<lparr>initialized := True\<rparr>;
            out1 = (if error_isValid (td_error d1) then [(q, ErrorChanged (td_error d1))] else [])
        in if \<not> td_available d1 then (p1, d1, out1)
           else
             let out2 = out1 @ [(q, AvailableChanged True)];
                 out3 = out2 @ [(q, PropertiesReset (td_properties d1))];
                 out4 = initialize_properties q (td_properties d1) out3
             in (p1, d1, out4 @ [(q, Ready)]))"

text \<open>\<^verbatim>\<open>PropertyCache::initialize\<close>: the returned \<^verbatim>\<open>bool\<close> comes first.\<close>

definition PropertyCache_initialize ::
  "nat \<Rightarrow> PropertyCachePrivate \<Rightarrow> PropertyCacheThreadData
     \<Rightarrow> bool \<times> PropertyCachePrivate \<times> PropertyCacheThreadData \<times> (nat \<times> Signal) list" where
  "PropertyCache_initialize q p d =
     (let (p', d', out) = PropertyCachePrivate_initialize q p d
      in (td_available d' \<or> error_isValid (td_error d'), p', d', out))"

text \<open>
  The constructor \<^verbatim>\<open>PropertyCachePrivate::PropertyCachePrivate\<close>, given the thread data
  that \<^verbatim>\<open>localInstance(target)\<close> returned. The last component lists the handles for which
  a call of \<^verbatim>\<open>initialize\<close> was posted to the event loop (\<^verbatim>\<open>Qt::QueuedConnection\<close>).
\<close>

definition PropertyCachePrivate_new ::
  "nat \<Rightarrow> PropertyCacheThreadData
     \<Rightarrow> PropertyCachePrivate \<times> PropertyCacheThreadData \<times> (nat \<times> Signal) list \<times> nat list" where
  "PropertyCachePrivate_new q d =
     (let p = \<lparr>initialized = False\<rparr> in
      if \<not> td_available d \<and> \<not> error_isValid (td_error d)
      then (let (p', d', out) = PropertyCachePrivate_initialize q p d in (p', d', out, []))
      else (p, d, [], [q]))"

text \<open>A caller that calls \<^verbatim>\<open>initialize()\<close> \<open>n\<close> times in a row, collecting what is emitted.\<close>

fun initialize_times ::
  "nat \<Rightarrow> nat \<Rightarrow> PropertyCachePrivate \<Rightarrow> PropertyCacheThreadData
     \<Rightarrow> PropertyCachePrivate \<times> PropertyCacheThreadData \<times> (nat \<times> Signal) list" where
  "initialize_times 0 q p d = (p, d, [])"
| "initialize_times (Suc n) q p d =
     (let (r, p1, d1, out1) = PropertyCache_initialize q p d;
          (p2, d2, out2) = initialize_times n q p1 d1
      in (p2, d2, out1 @ out2))"

text \<open>
  \<^verbatim>\<open>PropertyCache::set\<close> works on the handle, its thread data and the bus. The client
  side of one handle is a record of all three: the calls given to
  \<^verbatim>\<open>QDBusConnection::asyncCall\<close> with the identity of the \<^verbatim>\<open>QDBusPendingCallWatcher\<close>
  created for each, the watchers still alive and the lines written to the log.
\<close>

datatype LogLevel = Info | Warning | Critical

record Client =
  cl_private :: PropertyCachePrivate
  cl_data :: PropertyCacheThreadData
  cl_calls :: "(QString \<times> QDBusMessage \<times> nat) list"
  cl_watchers :: "nat list"
  cl_next :: nat
  cl_log :: "(LogLevel \<times> QString) list"

definition PropertyCache_set :: "QString \<Rightarrow> QVariant \<Rightarrow> Client \<Rightarrow> Client" where
  "PropertyCache_set property val c =
     (let target = td_target (cl_data c);
          msg = createMethodCall (withInterface target k_property_interface) ''Set''
                  [Str (m_interface target), Str property, toDBusArgVariant val];
          pendingSet = cl_next c
      in c\<lparr>cl_calls := cl_calls c @ [(m_bus target, msg, pendingSet)],
            cl_watchers := cl_watchers c @ [pendingSet],
            cl_next := Suc pendingSet\<rparr>)"

text \<open>The lambda connected to \<^verbatim>\<open>QDBusPendingCallWatcher::finished\<close> in \<^verbatim>\<open>set\<close>; the
  reply is an error (\<open>Inl\<close>) or empty.\<close>

definition set_finished :: "QString \<Rightarrow> nat \<Rightarrow> QDBusError + unit \<Rightarrow> Client \<Rightarrow> Client" where
  "set_finished property w reply c =
     (let c1 = c\<lparr>cl_watchers := removeAll w (cl_watchers c)\<rparr> in
      case reply of
        Inl err \<Rightarrow> c1\<lparr>cl_log := cl_log c1 @ [(Warning, ''failed to set property'')]\<rparr>
      | Inr _ \<Rightarrow> c1)"


section \<open>PropertyCacheBackend: the shared owner of a target's state\<close>

text \<open>
  What a backend does to the outside: calls given to the bus, subscriptions, the two
  signals to the thread data objects, timers, deferred deletions and log lines
  (\<^verbatim>\<open>qCInfo\<close> and \<^verbatim>\<open>qCWarning\<close>; the \<^verbatim>\<open>qCDebug\<close> lines are left out).
\<close>

datatype Effect =
    AsyncCall QString QDBusMessage nat
  | WatchServiceOwner QString
  | ConnectPropertiesChanged QString QString QString QString QString
  | EmitReset QVariantMap QDBusError
  | EmitChangeProperties QVariantMap
  | SingleShotLoad nat
  | QueuedLoad
  | DeleteLater nat
  | Log LogLevel

text \<open>
  \<open>m_watcher\<close> tells whether the \<^verbatim>\<open>unique_ptr\<close> is set; \<open>m_pendingLoad\<close> is the identity
  of the pending \<^verbatim>\<open>QDBusPendingCallWatcher\<close> or \<open>None\<close> for \<^verbatim>\<open>nullptr\<close>; \<open>next_watcher\<close>
  is the identity that the next \<^verbatim>\<open>new QDBusPendingCallWatcher\<close> gets.
\<close>

record PropertyCacheBackend =
  m_target :: Target
  m_properties :: QVariantMap
  m_error :: QDBusError
  m_available :: bool
  m_watcher :: bool
  m_pendingLoad :: "nat option"
  next_watcher :: nat

type_synonym Acting = "PropertyCacheBackend \<times> Effect list"

text \<open>The constructor: default member values, and \<^verbatim>\<open>load\<close> queued on the backend thread.\<close>

definition PropertyCacheBackend_new :: "Target \<Rightarrow> Acting" where
  "PropertyCacheBackend_new target =
     (\<lparr>m_target = target, m_properties = [], m_error = QDBusError_default,
       m_available = False, m_watcher = False, m_pendingLoad = None, next_watcher = 0\<rparr>,
      [QueuedLoad])"

definition propertiesTarget :: "PropertyCacheBackend \<Rightarrow> Target" where
  "propertiesTarget b = withInterface (m_target b) k_property_interface"

definition load :: "PropertyCacheBackend \<Rightarrow> Acting" where
  "load b =
     (if m_pendingLoad b \<noteq> None then (b, [])
      else
        let (b1, fx1) =
              (if \<not> m_watcher b
               then (b\<lparr>m_watcher := True\<rparr>,
                     [WatchServiceOwner (m_service (m_target b)),
                      ConnectPropertiesChanged (m_service (m_target b)) (m_path (m_target b))
                        k_property_interface k_properties_changed_signal_name
                        (m_interface (m_target b))])
               else (b, []));
            msg = createMethodCall (propertiesTarget b1) ''GetAll'' [Str (m_interface (m_target b1))];
            w = next_watcher b1
        in (b1\<lparr>m_pendingLoad := Some w, next_watcher := Suc w\<rparr>,
            fx1 @ [AsyncCall (m_bus (m_target b1)) msg w]))"

definition doReset :: "QVariantMap \<Rightarrow> QDBusError \<Rightarrow> PropertyCacheBackend \<Rightarrow> Acting" where
  "doReset properties error b =
     (b\<lparr>m_properties := properties, m_error := error, m_available := \<not> error_isValid error\<rparr>,
      [EmitReset properties error])"

text \<open>\<^verbatim>\<open>loadReply(w)\<close>: the reply carried by \<open>w\<close> is an error (\<open>Inl\<close>) or the map.\<close>

definition loadReply :: "nat \<Rightarrow> QDBusError + QVariantMap \<Rightarrow> PropertyCacheBackend \<Rightarrow> Acting" where
  "loadReply w reply b =
     (if Some w \<noteq> m_pendingLoad b then (b, [DeleteLater w])
      else
        let b1 = b\<lparr>m_pendingLoad := None\<rparr> in
        case reply of
          Inl err \<Rightarrow>
            let lg = (if err_type err = ServiceUnknown then Log Info else Log Warning);
                (b2, fx) = doReset [] err b1
            in (b2, [DeleteLater w, lg] @ fx)
        | Inr val \<Rightarrow>
            let (b2, fx) = doReset val QDBusError_default b1
            in (b2, [DeleteLater w] @ fx))"

definition serviceOwnerChanged :: "QString \<Rightarrow> QString \<Rightarrow> QString \<Rightarrow> PropertyCacheBackend \<Rightarrow> Acting" where
  "serviceOwnerChanged service oldOwner newOwner b =
     (let (b1, fx1) =
            (case m_pendingLoad b of
               Some w \<Rightarrow> (b\<lparr>m_pendingLoad := None\<rparr>, [DeleteLater w])
             | None \<Rightarrow> (b, []))
      in if isEmpty newOwner
         then (let (b2, fx2) =
                     doReset [] \<lparr>err_type = ServiceUnknown, err_message = ''DBus service disconnected''\<rparr> b1
               in (b2, fx1 @ [Log Info] @ fx2))
         else (b1, fx1 @ [Log Info, SingleShotLoad 50]))"

text \<open>
  The loop of \<^verbatim>\<open>propertiesChanged\<close>: it walks \<^verbatim>\<open>values\<close>, erasing the entries that the
  cache already holds and storing the others. The result is what is left of
  \<^verbatim>\<open>values\<close>, and \<^verbatim>\<open>m_properties\<close>.
\<close>

fun propertiesChanged_loop :: "QVariantMap \<Rightarrow> QVariantMap \<Rightarrow> QVariantMap \<times> QVariantMap" where
  "propertiesChanged_loop [] props = ([], props)"
| "propertiesChanged_loop ((k, v) # rest) props =
     (case constFind props k of
        None \<Rightarrow>
          (let (kept, props') = propertiesChanged_loop rest (qmap_insert k v props)
           in ((k, v) # kept, props'))
      | Some cv \<Rightarrow>
          if cv \<noteq> v
          then (let (kept, props') = propertiesChanged_loop rest (qmap_assign k v props)
                in ((k, v) # kept, props'))
          else propertiesChanged_loop rest props)"

definition propertiesChanged :: "QString \<Rightarrow> QVariantMap \<Rightarrow> PropertyCacheBackend \<Rightarrow> Acting" where
  "propertiesChanged interface values b =
     (if m_pendingLoad b \<noteq> None then (b, [])
      else if \<not> m_available b then load b
      else
        let (values', props') = propertiesChanged_loop values (m_properties b)
        in (b\<lparr>m_properties := props'\<rparr>, [EmitChangeProperties values']))"

text \<open>The events a backend reacts to on its thread, and its reaction to a sequence.\<close>

datatype BackendEvent =
    EvLoad
  | EvLoadReply nat "QDBusError + QVariantMap"
  | EvServiceOwnerChanged QString QString QString
  | EvPropertiesChanged QString QVariantMap

fun backend_step :: "BackendEvent \<Rightarrow> PropertyCacheBackend \<Rightarrow> Acting" where
  "backend_step EvLoad b = load b"
| "backend_step (EvLoadReply w reply) b = loadReply w reply b"
| "backend_step (EvServiceOwnerChanged service oldOwner newOwner) b =
     serviceOwnerChanged service oldOwner newOwner b"
| "backend_step (EvPropertiesChanged interface values) b = propertiesChanged interface values b"

fun backend_run :: "BackendEvent list \<Rightarrow> Acting \<Rightarrow> Acting" where
  "backend_run [] s = s"
| "backend_run (e # es) s =
     (let (b', fx) = backend_step e (fst s) in backend_run es (b', snd s @ fx))"

text \<open>The invariants of the backend state.\<close>

definition B1 :: "PropertyCacheBackend \<Rightarrow> bool" where
  "B1 b = (m_available b \<longrightarrow> \<not> error_isValid (m_error b))"

definition B2 :: "PropertyCacheBackend \<Rightarrow> bool" where
  "B2 b = (\<not> m_available b \<longrightarrow> isEmpty (m_properties b))"

text \<open>
  A thread data object receives the two signals of its backend through queued
  connections; \<open>deliver\<close> runs the connected slot.
\<close>

fun deliver :: "Effect \<Rightarrow> PropertyCacheThreadData \<Rightarrow> Emitting option" where
  "deliver (EmitReset values error) d = reset values error d"
| "deliver (EmitChangeProperties values) d = Some (changeProperties values d)"
| "deliver _ d = Some (d, [])"


text \<open>
  The constructor of \<^verbatim>\<open>PropertyCacheThreadData\<close>, given the backend that
  \<^verbatim>\<open>PropertyCacheBackend::instance(target)\<close> returned: it copies the three state fields
  of the backend; nothing is connected to the new object yet.
\<close>

definition PropertyCacheThreadData_new :: "Target \<Rightarrow> PropertyCacheBackend \<Rightarrow> PropertyCacheThreadData" where
  "PropertyCacheThreadData_new target b =
     \<lparr>td_target = target, td_properties = m_properties b, td_error = m_error b,
      td_available = m_available b, td_connections = []\<rparr>"


section \<open>A backend, one of its thread data objects and the handles on that thread\<close>

text \<open>
  The backend lives on the backend thread, the thread data object on a client thread:
  \<^verbatim>\<open>connect(m_backend.get(), &PropertyCacheBackend::reset, this, ...)\<close> and the connection
  of \<^verbatim>\<open>changeProperties\<close> are queued connections. Each \<^verbatim>\<open>emit\<close> of the backend posts
  the signal to the event queue of the client thread, and the client thread runs the
  slots in the order of posting. Of the effects of a backend only the two signals are
  posted.
\<close>

fun is_signal :: "Effect \<Rightarrow> bool" where
  "is_signal (EmitReset _ _) = True"
| "is_signal (EmitChangeProperties _) = True"
| "is_signal _ = False"

text \<open>
  \<open>sys_queue\<close> holds the signals posted and not yet delivered; \<open>sys_signals\<close> collects
  what the handles of the thread have emitted, each signal with the identity of the
  handle.
\<close>

record System =
  sys_backend :: PropertyCacheBackend
  sys_data :: PropertyCacheThreadData
  sys_queue :: "Effect list"
  sys_signals :: "(nat \<times> Signal) list"

text \<open>
  The constructor of the thread data runs at some moment of the life of the backend,
  after any events \<open>es\<close>. It holds \<^verbatim>\<open>m_dataMutex\<close> while it connects and copies, and the
  backend holds the same mutex whenever it writes its state and emits, so the copy is
  the state after the last signal emitted and no signal is lost or seen twice.
\<close>

definition System_new :: "Target \<Rightarrow> BackendEvent list \<Rightarrow> System" where
  "System_new t es =
     (let b = fst (backend_run es (PropertyCacheBackend_new t))
      in \<lparr>sys_backend = b, sys_data = PropertyCacheThreadData_new t b,
          sys_queue = [], sys_signals = []\<rparr>)"

text \<open>
  What can happen next: the backend reacts to an event, the client thread delivers the
  oldest posted signal (nothing when the queue is empty), or a new handle with identity
  \<open>q\<close> on the client thread runs \<^verbatim>\<open>initialize\<close>. A failed assertion in a slot ends the
  run: \<open>None\<close>.
\<close>

datatype SystemEvent =
    EvAtBackend BackendEvent
  | EvDeliver
  | EvInitialize nat

fun system_step :: "SystemEvent \<Rightarrow> System \<Rightarrow> System option" where
  "system_step (EvAtBackend e) s =
     (let (b', fx) = backend_step e (sys_backend s)
      in Some (s\<lparr>sys_backend := b', sys_queue := sys_queue s @ filter is_signal fx\<rparr>))"
| "system_step EvDeliver s =
     (case sys_queue s of
        [] \<Rightarrow> Some s
      | sg # rest \<Rightarrow>
          (case deliver sg (sys_data s) of
             None \<Rightarrow> None
           | Some (d', log) \<Rightarrow>
               Some (s\<lparr>sys_data := d', sys_queue := rest,
                        sys_signals := sys_signals s @ reemitted (td_connections d') log\<rparr>)))"
| "system_step (EvInitialize q) s =
     (let (p, d', out) = PropertyCachePrivate_initialize q \<lparr>initialized = False\<rparr> (sys_data s)
      in Some (s\<lparr>sys_data := d', sys_signals := sys_signals s @ out\<rparr>))"

fun system_run :: "SystemEvent list \<Rightarrow> System \<Rightarrow> System option" where
  "system_run [] s = Some s"
| "system_run (e # es) s =
     (case system_step e s of None \<Rightarrow> None | Some s' \<Rightarrow> system_run es s')"

text \<open>A delta is redundant for a map when each of its entries is in the map already.\<close>

definition redundant :: "QVariantMap \<Rightarrow> QVariantMap \<Rightarrow> bool" where
  "redundant delta props = list_all (\<lambda>(k, v). constFind props k = Some v) delta"

text \<open>
  The property map a thread data object holds after the posted signals are delivered,
  and the condition on a queue that each reset passes the assertion of the slot and
  each delta is empty or not redundant for the map it will meet.
\<close>

fun replay :: "Effect list \<Rightarrow> QVariantMap \<Rightarrow> QVariantMap" where
  "replay [] props = props"
| "replay (EmitReset values error # q) props = replay q values"
| "replay (EmitChangeProperties delta # q) props = replay q (changeProperties_update delta props)"
| "replay (_ # q) props = replay q props"

fun queue_ok :: "Effect list \<Rightarrow> QVariantMap \<Rightarrow> bool" where
  "queue_ok [] props = True"
| "queue_ok (EmitReset values error # q) props =
     ((\<not> error_isValid error \<or> isEmpty values) \<and> queue_ok q values)"
| "queue_ok (EmitChangeProperties delta # q) props =
     ((delta = [] \<or> \<not> redundant delta props) \<and> queue_ok q (changeProperties_update delta props))"
| "queue_ok (_ # q) props = queue_ok q props"

text \<open>Backend and thread data are in step: the queue is as described and leads the map
  of the thread data to the map of the backend.\<close>

definition in_sync :: "System \<Rightarrow> bool" where
  "in_sync s =
     (queue_ok (sys_queue s) (td_properties (sys_data s))
      \<and> replay (sys_queue s) (td_properties (sys_data s)) = m_properties (sys_backend s))"


section \<open>States used as examples\<close>

text \<open>The target of the test suite, on the session bus.\<close>

definition example_target :: Target where
  "example_target =
     \<lparr>m_bus = ''qt_default_session_bus'', m_service = ''test.service'',
      m_path = ''/test/service'', m_interface = ''test.service''\<rparr>"

text \<open>A thread data object whose backend has not answered yet, and one that is available.\<close>

definition data_loading :: PropertyCacheThreadData where
  "data_loading =
     \<lparr>td_target = example_target, td_properties = [], td_error = QDBusError_default,
      td_available = False, td_connections = []\<rparr>"

definition data_ready :: PropertyCacheThreadData where
  "data_ready =
     \<lparr>td_target = example_target, td_properties = [(''str'', Str ''hello'')],
      td_error = QDBusError_default, td_available = True, td_connections = []\<rparr>"

text \<open>An available backend that caches \<open>str = "one"\<close>.\<close>

definition example_backend :: PropertyCacheBackend where
  "example_backend =
     \<lparr>m_target = example_target, m_properties = [(''str'', Str ''one'')],
      m_error = QDBusError_default, m_available = True, m_watcher = True,
      m_pendingLoad = None, next_watcher = 1\<rparr>"

text \<open>
  The system after a successful load of \<open>str = "hello"\<close>, the initialization of handle 7
  and a \<open>PropertiesChanged\<close> that repeats \<open>str = "hello"\<close>: the empty delta is posted.
\<close>

definition example_system :: System where
  "example_system =
     \<lparr>sys_backend =
        \<lparr>m_target = example_target, m_properties = [(''str'', Str ''hello'')],
         m_error = QDBusError_default, m_available = True, m_watcher = True,
         m_pendingLoad = None, next_watcher = 1\<rparr>,
      sys_data =
        data_ready\<lparr>td_connections :=
          [(KAvailableChanged, 7), (KErrorChanged, 7), (KReady, 7), (KLost, 7),
           (KPropertyChanged, 7), (KPropertiesReset, 7)]\<rparr>,
      sys_queue = [EmitChangeProperties []],
      sys_signals =
        [(7, AvailableChanged True), (7, PropertiesReset [(''str'', Str ''hello'')]),
         (7, PropertyChanged ''str'' (Str ''hello'')), (7, Ready)]\<rparr>"


section \<open>The association lists stay maps\<close>

text \<open>
  The operations that write to a property map keep its keys strictly ascending, so the
  lists of the model are the iteration sequences of \<^verbatim>\<open>QMap\<close>s, with one entry per key.
\<close>

lemma keys_qmap_insert: "fst ` set (qmap_insert k v m) = insert k (fst ` set m)"
  by (induction k v m rule: qmap_insert.induct) auto

lemma keys_qmap_assign: "map fst (qmap_assign k v m) = map fst m"
  by (induction k v m rule: qmap_assign.induct) auto

lemma qmap_insert_ok: "qmap_ok m \<Longrightarrow> qmap_ok (qmap_insert k v m)"
proof (induction k v m rule: qmap_insert.induct)
  case (1 k v)
  show ?case by (simp add: qmap_ok_def)
next
  case (2 k v k' v' m)
  show ?case
  proof (cases "k < k' \<or> k = k'")
    case True
    with "2.prems" show ?thesis by (auto simp add: qmap_ok_def)
  next
    case False
    then have gt: "k' < k" by auto
    from "2.prems" have tl: "qmap_ok m" and hd: "\<forall>x \<in> fst ` set m. k' < x"
      by (auto simp add: qmap_ok_def)
    from False tl have "qmap_ok (qmap_insert k v m)" by (simp add: "2.IH")
    moreover from hd gt have "\<forall>x \<in> fst ` set (qmap_insert k v m). k' < x"
      by (simp add: keys_qmap_insert)
    ultimately show ?thesis
      using False by (simp add: qmap_ok_def)
  qed
qed

lemma qmap_set_ok: "qmap_ok m \<Longrightarrow> qmap_ok (qmap_set k v m)"
proof (cases "constFind m k")
  case None
  assume "qmap_ok m"
  with None show ?thesis by (simp add: qmap_set_def qmap_insert_ok)
next
  case (Some cv)
  assume "qmap_ok m"
  with Some show ?thesis by (simp add: qmap_set_def qmap_ok_def keys_qmap_assign)
qed

lemma changeProperties_update_ok:
  "qmap_ok props \<Longrightarrow> qmap_ok (changeProperties_update values props)"
  by (induction "values" arbitrary: props) (auto simp add: qmap_set_ok)

lemma propertiesChanged_loop_ok:
  "qmap_ok props \<Longrightarrow> qmap_ok (snd (propertiesChanged_loop values props))"
proof (induction "values" arbitrary: props)
  case Nil
  then show ?case by simp
next
  case (Cons kv rest)
  obtain k v where kv: "kv = (k, v)" by (cases kv)
  have a: "qmap_ok (qmap_insert k v props)"
    using Cons.prems by (rule qmap_insert_ok)
  have b: "qmap_ok (qmap_assign k v props)"
    using Cons.prems by (simp add: qmap_ok_def keys_qmap_assign)
  show ?case
    using Cons.IH [OF a] Cons.IH [OF b] Cons.IH [OF Cons.prems]
    by (simp add: kv case_prod_unfold Let_def split: option.split)
qed

lemma qmap_ok_distinct: "qmap_ok m \<Longrightarrow> distinct (map fst m)"
  by (simp add: qmap_ok_def strict_sorted_iff)

lemma constFind_insert:
  "constFind (qmap_insert k v m) k' = (if k' = k then Some v else constFind m k')"
  by (induction k v m rule: qmap_insert.induct) (auto simp add: constFind_def)

lemma constFind_assign:
  "constFind (qmap_assign k v m) k' =
     (if k' = k \<and> constFind m k \<noteq> None then Some v else constFind m k')"
  by (induction k v m rule: qmap_assign.induct) (auto simp add: constFind_def)

lemma constFind_set:
  "constFind (qmap_set k v m) k' = (if k' = k then Some v else constFind m k')"
  by (cases "constFind m k") (simp_all add: qmap_set_def constFind_insert constFind_assign)

lemma constFind_notin: "k \<notin> fst ` set m \<Longrightarrow> constFind m k = None"
  by (simp add: constFind_def map_of_eq_None_iff)


section \<open>Delivery of a reset by the thread data\<close>

lemma fst_emit: "fst (emit sg s) = fst s"
  by (simp add: emit_def)

lemma snd_emit: "snd (emit sg s) = snd s @ [\<lparr>signal = sg, seen = fst s\<rparr>]"
  by (simp add: emit_def)

lemma fst_reset_changed: "fst (reset_changed before new s) = fst s"
  by (induction before new s rule: reset_changed.induct) (simp_all add: fst_emit Let_def)

lemma snd_reset_changed:
  "snd (reset_changed before new s) =
     snd s @ map (\<lambda>sg. \<lparr>signal = sg, seen = fst s\<rparr>)
               [PropertyChanged k v. (k, v) \<leftarrow> new, constFind before k \<noteq> Some v]"
proof (induction new arbitrary: s)
  case Nil
  show ?case by simp
next
  case (Cons kv rest)
  obtain k v where kv: "kv = (k, v)" by (cases kv)
  show ?case
    by (cases "constFind before k") (simp_all add: kv Cons.IH fst_emit snd_emit)
qed

lemma fst_reset_removed: "fst (reset_removed before s) = fst s"
  by (induction before s rule: reset_removed.induct) (simp_all add: fst_emit)

lemma snd_reset_removed:
  "snd (reset_removed before s) =
     snd s @ map (\<lambda>sg. \<lparr>signal = sg, seen = fst s\<rparr>)
               [PropertyChanged k Invalid. (k, v) \<leftarrow> before, constFind (td_properties (fst s)) k = None]"
proof (induction before arbitrary: s)
  case Nil
  show ?case by simp
next
  case (Cons kv rest)
  obtain k v where kv: "kv = (k, v)" by (cases kv)
  show ?case
    by (simp add: kv Cons.IH fst_emit snd_emit qmap_contains_def)
qed

lemma fst_reset_body:
  "fst (reset_body values error d) =
     d\<lparr>td_available := \<not> error_isValid error, td_error := error, td_properties := values\<rparr>"
  by (simp add: reset_body_def Let_def fst_emit fst_reset_changed fst_reset_removed)

lemma seen_reset_body:
  "e \<in> set (snd (reset_body values error d)) \<Longrightarrow>
     seen e = d\<lparr>td_available := \<not> error_isValid error, td_error := error, td_properties := values\<rparr>"
  by (auto simp add: reset_body_def Let_def fst_emit snd_emit
        fst_reset_changed fst_reset_removed snd_reset_changed snd_reset_removed
        split: if_splits)

lemma signals_reset_body:
  "map signal (snd (reset_body values error d)) =
     (if td_available d \<noteq> (\<not> error_isValid error) then [AvailableChanged (\<not> error_isValid error)] else [])
   @ (if err_type (td_error d) \<noteq> err_type error then [ErrorChanged error] else [])
   @ (if td_properties d \<noteq> [] \<or> values \<noteq> [] then [PropertiesReset values] else [])
   @ [PropertyChanged k v. (k, v) \<leftarrow> values, constFind (td_properties d) k \<noteq> Some v]
   @ [PropertyChanged k Invalid. (k, v) \<leftarrow> td_properties d, constFind values k = None]
   @ (if td_available d \<and> error_isValid error then [Lost] else [])
   @ (if \<not> td_available d \<and> \<not> error_isValid error then [Ready] else [])"
  by (simp add: reset_body_def Let_def fst_emit snd_emit isEmpty_def
        fst_reset_changed fst_reset_removed snd_reset_changed snd_reset_removed
        map_concat comp_def case_prod_unfold)

text \<open>
  C1. A reset that passes the assertion of \<^verbatim>\<open>PropertyCacheThreadData::reset\<close> returns;
  the object then holds the new properties, the new error and
  \<open>available = (error absent)\<close>; the signals emitted are, in this order,
  \<open>availableChanged(available)\<close> iff the availability changed, \<open>errorChanged(error)\<close> iff the
  error type changed, \<open>propertiesReset(properties)\<close> iff the old or the new map is not
  empty, \<open>propertyChanged(key, value)\<close> for each entry of the new map that the old map did
  not hold with that value, \<open>propertyChanged(key, invalid)\<close> for each key of the old map
  missing from the new one, \<open>lost()\<close> iff the object was available and is not any more,
  \<open>ready()\<close> iff it was not available and now is. Every one of these emissions happens in
  the new state, so whatever a listener reads through \<open>get\<close>, \<open>getAll\<close>, \<open>contains\<close>,
  \<open>isAvailable\<close> or \<open>error\<close> of a handle on the thread is read from the new state.
\<close>

theorem reset_delivery_order:
  assumes "\<not> error_isValid error \<or> isEmpty values"
  shows "let post = d\<lparr>td_available := \<not> error_isValid error, td_error := error,
                       td_properties := values\<rparr>
         in \<exists>log. reset values error d = Some (post, log)
            \<and> map signal log =
                (if td_available d \<noteq> td_available post then [AvailableChanged (td_available post)] else [])
              @ (if err_type (td_error d) \<noteq> err_type error then [ErrorChanged error] else [])
              @ (if td_properties d \<noteq> [] \<or> values \<noteq> [] then [PropertiesReset values] else [])
              @ [PropertyChanged k v. (k, v) \<leftarrow> values, constFind (td_properties d) k \<noteq> Some v]
              @ [PropertyChanged k Invalid. (k, v) \<leftarrow> td_properties d, constFind values k = None]
              @ (if td_available d \<and> \<not> td_available post then [Lost] else [])
              @ (if \<not> td_available d \<and> td_available post then [Ready] else [])
            \<and> (\<forall>e \<in> set log.
                  seen e = post
                  \<and> (\<forall>p k. PropertyCache_get p (seen e) k = PropertyCache_get p post k
                          \<and> PropertyCache_contains p (seen e) k = PropertyCache_contains p post k
                          \<and> PropertyCache_getAll p (seen e) = PropertyCache_getAll p post
                          \<and> PropertyCache_isAvailable p (seen e) = PropertyCache_isAvailable p post
                          \<and> PropertyCache_error p (seen e) = PropertyCache_error p post))"
proof -
  let ?post = "d\<lparr>td_available := \<not> error_isValid error, td_error := error, td_properties := values\<rparr>"
  let ?log = "snd (reset_body values error d)"
  have ret: "reset values error d = Some (?post, ?log)"
    using assms fst_reset_body [of "values" error d]
    by (simp add: reset_def prod_eq_iff)
  have sigs: "map signal ?log =
                (if td_available d \<noteq> td_available ?post then [AvailableChanged (td_available ?post)] else [])
              @ (if err_type (td_error d) \<noteq> err_type error then [ErrorChanged error] else [])
              @ (if td_properties d \<noteq> [] \<or> values \<noteq> [] then [PropertiesReset values] else [])
              @ [PropertyChanged k v. (k, v) \<leftarrow> values, constFind (td_properties d) k \<noteq> Some v]
              @ [PropertyChanged k Invalid. (k, v) \<leftarrow> td_properties d, constFind values k = None]
              @ (if td_available d \<and> \<not> td_available ?post then [Lost] else [])
              @ (if \<not> td_available d \<and> td_available ?post then [Ready] else [])"
    by (simp add: signals_reset_body)
  have obs: "\<forall>e \<in> set ?log. seen e = ?post"
    using seen_reset_body by blast
  show ?thesis
    unfolding Let_def using ret sigs obs by auto
qed

text \<open>
  C1 at the second end-to-end scenario of the specification: the service appears with
  \<open>str = "hello"\<close>.
\<close>

theorem reset_delivery_order_witness:
  "map_option (\<lambda>r. map signal (snd r))
     (reset [(''str'', Str ''hello'')] QDBusError_default
        \<lparr>td_target = Target_default, td_properties = [], td_error = QDBusError_default,
         td_available = False, td_connections = []\<rparr>)
   = Some [AvailableChanged True, PropertiesReset [(''str'', Str ''hello'')],
           PropertyChanged ''str'' (Str ''hello''), Ready]"
  using reset_delivery_order [of QDBusError_default "[(''str'', Str ''hello'')]"
      "\<lparr>td_target = Target_default, td_properties = [], td_error = QDBusError_default,
        td_available = False, td_connections = []\<rparr>"]
  by (auto simp add: Let_def error_isValid_def QDBusError_default_def constFind_def)


section \<open>Delivery of a change by the thread data\<close>

text \<open>
  \<^verbatim>\<open>changeProperties\<close> stores every entry before it emits: one \<open>propertyChanged\<close> per
  entry, in the order of the map, each of them emitted in the final state.
\<close>

lemma fst_changeProperties_emit: "fst (changeProperties_emit values s) = fst s"
  by (induction "values" s rule: changeProperties_emit.induct) (simp_all add: fst_emit)

lemma snd_changeProperties_emit:
  "snd (changeProperties_emit values s) =
     snd s @ map (\<lambda>(k, v). \<lparr>signal = PropertyChanged k v, seen = fst s\<rparr>) values"
proof (induction "values" arbitrary: s)
  case Nil
  show ?case by simp
next
  case (Cons kv rest)
  obtain k v where kv: "kv = (k, v)" by (cases kv)
  show ?case
    by (simp add: kv Cons.IH fst_emit snd_emit)
qed

lemma constFind_changeProperties_update:
  "distinct (map fst values) \<Longrightarrow>
   constFind (changeProperties_update values props) k =
     (case constFind values k of Some v \<Rightarrow> Some v | None \<Rightarrow> constFind props k)"
proof (induction "values" arbitrary: props)
  case Nil
  show ?case by (simp add: constFind_def)
next
  case (Cons kv rest)
  obtain k' v' where kv: "kv = (k', v')" by (cases kv)
  from Cons.prems kv have notin: "k' \<notin> fst ` set rest" and dist: "distinct (map fst rest)"
    by simp_all
  have rest_k: "constFind rest k' = None"
    using notin by (rule constFind_notin)
  have hd: "constFind ((k', v') # rest) k = (if k = k' then Some v' else constFind rest k)"
    by (simp add: constFind_def)
  show ?case
    using Cons.IH [OF dist, of "qmap_set k' v' props"] rest_k
    by (simp add: kv hd constFind_set split: option.split)
qed

lemma changeProperties_delivery:
  "fst (changeProperties values d) =
     d\<lparr>td_properties := changeProperties_update values (td_properties d)\<rparr>
   \<and> map signal (snd (changeProperties values d)) = map (\<lambda>(k, v). PropertyChanged k v) values
   \<and> (\<forall>e \<in> set (snd (changeProperties values d)). seen e = fst (changeProperties values d))"
  by (auto simp add: changeProperties_def fst_changeProperties_emit snd_changeProperties_emit
        case_prod_unfold comp_def)


section \<open>The handle before and during initialization\<close>

text \<open>
  C6. As long as \<^verbatim>\<open>initialized\<close> is false, \<open>get\<close> returns an invalid variant for every
  key, \<open>contains\<close> returns false for every key, \<open>isAvailable\<close> returns false, \<open>getAll\<close>
  returns the empty map and \<open>error\<close> returns the default-constructed error, which is not
  valid; all of this whatever the shared thread data holds.
\<close>
theorem reads_before_initialize:
  assumes "\<not> initialized p"
  shows "PropertyCache_get p d k = Invalid
       \<and> PropertyCache_contains p d k = False
       \<and> PropertyCache_isAvailable p d = False
       \<and> PropertyCache_getAll p d = []
       \<and> PropertyCache_error p d = QDBusError_default
       \<and> error_isValid (PropertyCache_error p d) = False"
  using assms
  by (simp add: PropertyCache_get_def PropertyCache_contains_def PropertyCache_isAvailable_def
        PropertyCache_getAll_def PropertyCache_error_def error_isValid_def QDBusError_default_def)

text \<open>The hypothesis of C6 at a handle whose thread data is available and holds \<open>str\<close>.\<close>
theorem reads_before_initialize_witness:
  "PropertyCache_get \<lparr>initialized = False\<rparr>
     \<lparr>td_target = Target_default, td_properties = [(''str'', Str ''hello'')],
      td_error = QDBusError_default, td_available = True, td_connections = []\<rparr> ''str'' = Invalid
   \<and> PropertyCache_getAll \<lparr>initialized = False\<rparr>
     \<lparr>td_target = Target_default, td_properties = [(''str'', Str ''hello'')],
      td_error = QDBusError_default, td_available = True, td_connections = []\<rparr> = []"
  using reads_before_initialize [of "\<lparr>initialized = False\<rparr>"
      "\<lparr>td_target = Target_default, td_properties = [(''str'', Str ''hello'')],
        td_error = QDBusError_default, td_available = True, td_connections = []\<rparr>" "''str''"]
  by simp

lemma initialize_properties_eq:
  "initialize_properties q props out = out @ map (\<lambda>(k, v). (q, PropertyChanged k v)) props"
  by (induction q props out rule: initialize_properties.induct) simp_all

lemma initialize_fresh:
  "\<not> initialized p \<Longrightarrow>
   PropertyCachePrivate_initialize q p d =
     (p\<lparr>initialized := True\<rparr>,
      d\<lparr>td_connections := td_connections d @
           [(KAvailableChanged, q), (KErrorChanged, q), (KReady, q), (KLost, q),
            (KPropertyChanged, q), (KPropertiesReset, q)]\<rparr>,
      (if error_isValid (td_error d) then [(q, ErrorChanged (td_error d))] else [])
      @ (if td_available d
         then [(q, AvailableChanged True), (q, PropertiesReset (td_properties d))]
              @ map (\<lambda>(k, v). (q, PropertyChanged k v)) (td_properties d) @ [(q, Ready)]
         else []))"
  by (simp add: PropertyCachePrivate_initialize_def Let_def initialize_properties_eq)

lemma initialize_again:
  "initialized p \<Longrightarrow> PropertyCachePrivate_initialize q p d = (p, d, [])"
  by (simp add: PropertyCachePrivate_initialize_def)

text \<open>
  C5. \<^verbatim>\<open>PropertyCache::initialize\<close> returns \<open>available \<or> error present\<close> of the thread
  data. On a handle that was not initialized this is true exactly when the call emitted
  something; while the thread data is still loading the result is false and nothing is
  emitted. On a handle that is initialized already nothing is emitted and nothing changes.
\<close>
theorem initialize_return_value:
  "(case PropertyCache_initialize q p d of (r, p', d', out) \<Rightarrow>
      r = (td_available d \<or> error_isValid (td_error d))
    \<and> (\<not> initialized p \<longrightarrow> (r \<longleftrightarrow> out \<noteq> []))
    \<and> (\<not> td_available d \<and> \<not> error_isValid (td_error d) \<longrightarrow> r = False \<and> out = [])
    \<and> (initialized p \<longrightarrow> out = [] \<and> p' = p \<and> d' = d))"
proof (cases "initialized p")
  case True
  then show ?thesis
    by (simp add: PropertyCache_initialize_def initialize_again)
next
  case False
  then show ?thesis
    by (simp add: PropertyCache_initialize_def initialize_fresh)
qed

text \<open>
  C5 at a fresh handle on available data (true, the four signals), at a fresh handle on
  loading data (false) and at an initialized handle (true).
\<close>
theorem initialize_return_value_witness:
  "PropertyCache_initialize 7 \<lparr>initialized = False\<rparr> data_ready
     = (True, \<lparr>initialized = True\<rparr>,
        data_ready\<lparr>td_connections :=
          [(KAvailableChanged, 7), (KErrorChanged, 7), (KReady, 7), (KLost, 7),
           (KPropertyChanged, 7), (KPropertiesReset, 7)]\<rparr>,
        [(7, AvailableChanged True), (7, PropertiesReset [(''str'', Str ''hello'')]),
         (7, PropertyChanged ''str'' (Str ''hello'')), (7, Ready)])
   \<and> fst (PropertyCache_initialize 7 \<lparr>initialized = False\<rparr> data_loading) = False
   \<and> fst (PropertyCache_initialize 7 \<lparr>initialized = True\<rparr> data_ready) = True"
  using initialize_return_value [where q = 7 and p = "\<lparr>initialized = False\<rparr>" and d = data_ready]
    initialize_return_value [where q = 7 and p = "\<lparr>initialized = False\<rparr>" and d = data_loading]
    initialize_return_value [where q = 7 and p = "\<lparr>initialized = True\<rparr>" and d = data_ready]
  by (simp add: PropertyCache_initialize_def initialize_fresh data_ready_def data_loading_def
        error_isValid_def QDBusError_default_def split: prod.splits)

text \<open>
  C7 as stated fails: the constructor does not always post \<^verbatim>\<open>initialize\<close>. On thread
  data that is neither available nor failed it runs \<^verbatim>\<open>initialize\<close> inline. So it is for
  the first handle of a target, whose thread data is a copy of a new backend: after the
  constructor the handle is initialized and connected, and nothing is queued.
\<close>

theorem construction_inline_counterexample:
  "PropertyCachePrivate_new 7
     (PropertyCacheThreadData_new example_target (fst (PropertyCacheBackend_new example_target)))
   = (\<lparr>initialized = True\<rparr>,
      \<lparr>td_target = example_target, td_properties = [], td_error = QDBusError_default,
       td_available = False,
       td_connections = [(KAvailableChanged, 7), (KErrorChanged, 7), (KReady, 7), (KLost, 7),
                         (KPropertyChanged, 7), (KPropertiesReset, 7)]\<rparr>,
      [], [])"
  by (simp add: PropertyCachePrivate_new_def PropertyCachePrivate_initialize_def
        PropertyCacheThreadData_new_def PropertyCacheBackend_new_def
        error_isValid_def QDBusError_default_def Let_def)

text \<open>
  C7, amended. The constructor emits no signal in any case. It posts \<^verbatim>\<open>initialize\<close> to
  the event loop, and leaves the handle uninitialized, exactly when the thread data
  already holds state (available or an error). When the thread data holds no state,
  \<^verbatim>\<open>initialize\<close> runs inline, where all it does is to make the six connections and to
  set \<^verbatim>\<open>initialized\<close>.
\<close>
theorem construction_defers_with_state:
  "(case PropertyCachePrivate_new q d of (p, d', out, queued) \<Rightarrow>
      out = []
    \<and> (td_available d \<or> error_isValid (td_error d) \<longrightarrow>
         queued = [q] \<and> \<not> initialized p \<and> d' = d)
    \<and> (\<not> td_available d \<and> \<not> error_isValid (td_error d) \<longrightarrow>
         queued = [] \<and> initialized p
         \<and> d' = d\<lparr>td_connections := td_connections d @
                    [(KAvailableChanged, q), (KErrorChanged, q), (KReady, q), (KLost, q),
                     (KPropertyChanged, q), (KPropertiesReset, q)]\<rparr>))"
proof (cases "\<not> td_available d \<and> \<not> error_isValid (td_error d)")
  case True
  then show ?thesis
    by (simp add: PropertyCachePrivate_new_def initialize_fresh)
next
  case False
  then show ?thesis
    by (auto simp add: PropertyCachePrivate_new_def)
qed

text \<open>The amended C7 at thread data that is available: the call is posted.\<close>
theorem construction_defers_with_state_witness:
  "PropertyCachePrivate_new 7 data_ready = (\<lparr>initialized = False\<rparr>, data_ready, [], [7])"
  using construction_defers_with_state [where q = 7 and d = data_ready]
  by (simp add: data_ready_def split: prod.splits)

lemma initialize_times_initialized:
  "initialized p \<Longrightarrow> initialize_times n q p d = (p, d, [])"
  by (induction n) (simp_all add: PropertyCache_initialize_def initialize_again)

text \<open>
  C10. \<^verbatim>\<open>initialize\<close> is idempotent. On an initialized handle a call changes neither the
  handle nor the thread data (so it adds no connection) and emits nothing; its result is
  computed from the thread data of that moment. After any call the handle is initialized,
  so this holds for every later call, whatever the thread data has become. Hence \<open>n + 1\<close>
  calls in a row leave the state, the connections and the emitted signals of the first
  call, and the six connections are made at most once.
\<close>
theorem initialize_idempotent:
  "(initialized p \<longrightarrow>
      PropertyCache_initialize q p d = (td_available d \<or> error_isValid (td_error d), p, d, []))
   \<and> (case PropertyCache_initialize q p d of (r, p1, d1, out1) \<Rightarrow>
        initialized p1
      \<and> (\<forall>d2. PropertyCache_initialize q p1 d2 =
                 (td_available d2 \<or> error_isValid (td_error d2), p1, d2, []))
      \<and> initialize_times (Suc n) q p d = (p1, d1, out1)
      \<and> td_connections d1 =
          td_connections d @
          (if initialized p then []
           else [(KAvailableChanged, q), (KErrorChanged, q), (KReady, q), (KLost, q),
                 (KPropertyChanged, q), (KPropertiesReset, q)]))"
proof (cases "initialized p")
  case True
  then show ?thesis
    by (simp add: PropertyCache_initialize_def initialize_again initialize_times_initialized)
next
  case False
  then show ?thesis
    by (simp add: PropertyCache_initialize_def initialize_fresh initialize_again
          initialize_times_initialized)
qed

text \<open>C10 at three calls on a fresh handle over available data.\<close>
theorem initialize_idempotent_witness:
  "initialize_times (Suc 2) 7 \<lparr>initialized = False\<rparr> data_ready
     = (\<lparr>initialized = True\<rparr>,
        data_ready\<lparr>td_connections :=
          [(KAvailableChanged, 7), (KErrorChanged, 7), (KReady, 7), (KLost, 7),
           (KPropertyChanged, 7), (KPropertiesReset, 7)]\<rparr>,
        [(7, AvailableChanged True), (7, PropertiesReset [(''str'', Str ''hello'')]),
         (7, PropertyChanged ''str'' (Str ''hello'')), (7, Ready)])"
  using initialize_idempotent [where p = "\<lparr>initialized = False\<rparr>" and q = 7 and d = data_ready and n = 2]
  by (simp add: PropertyCache_initialize_def initialize_fresh data_ready_def
        error_isValid_def QDBusError_default_def split: prod.splits)

text \<open>
  C9. \<^verbatim>\<open>PropertyCache::set\<close> does exactly this: it gives one \<open>Set\<close> call for
  \<open>org.freedesktop.DBus.Properties\<close> at the service and path of the target, with the
  arguments interface, property and the value wrapped as a variant, to \<^verbatim>\<open>asyncCall\<close>, and
  creates the watcher of the reply. The thread data (property map, available flag,
  error) and the handle are as before, so every read returns what it returned before.
  The reply, whenever it arrives, does exactly this: the watcher goes away and, for an
  error reply, one warning is added to the log. Again thread data and handle are as
  before; nothing is emitted or returned to the caller.
\<close>

theorem set_keeps_local_state:
  "PropertyCache_set property val c =
     c\<lparr>cl_calls := cl_calls c @
          [(m_bus (td_target (cl_data c)),
            \<lparr>msg_service = m_service (td_target (cl_data c)),
             msg_path = m_path (td_target (cl_data c)),
             msg_interface = ''org.freedesktop.DBus.Properties'',
             msg_member = ''Set'',
             msg_arguments = [Str (m_interface (td_target (cl_data c))), Str property,
                              toDBusArgVariant val]\<rparr>,
            cl_next c)],
       cl_watchers := cl_watchers c @ [cl_next c],
       cl_next := Suc (cl_next c)\<rparr>
   \<and> cl_data (PropertyCache_set property val c) = cl_data c
   \<and> td_properties (cl_data (PropertyCache_set property val c)) = td_properties (cl_data c)
   \<and> td_available (cl_data (PropertyCache_set property val c)) = td_available (cl_data c)
   \<and> td_error (cl_data (PropertyCache_set property val c)) = td_error (cl_data c)
   \<and> cl_private (PropertyCache_set property val c) = cl_private c
   \<and> cl_log (PropertyCache_set property val c) = cl_log c
   \<and> PropertyCache_get (cl_private (PropertyCache_set property val c))
         (cl_data (PropertyCache_set property val c)) k
       = PropertyCache_get (cl_private c) (cl_data c) k
   \<and> set_finished property w reply c =
       c\<lparr>cl_watchers := removeAll w (cl_watchers c),
         cl_log := cl_log c @
           (case reply of Inl err \<Rightarrow> [(Warning, ''failed to set property'')] | Inr u \<Rightarrow> [])\<rparr>
   \<and> cl_data (set_finished property w reply c) = cl_data c
   \<and> cl_private (set_finished property w reply c) = cl_private c
   \<and> cl_calls (set_finished property w reply c) = cl_calls c"
  by (cases reply)
     (simp_all add: PropertyCache_set_def set_finished_def Let_def createMethodCall_def
        withInterface_def k_property_interface_def)

section \<open>The backend\<close>

lemma loop_kept:
  "distinct (map fst values) \<Longrightarrow>
   fst (propertiesChanged_loop values props) =
     filter (\<lambda>(k, v). constFind props k \<noteq> Some v) values"
proof (induction "values" arbitrary: props)
  case Nil
  show ?case by simp
next
  case (Cons kv rest)
  obtain k v where kv: "kv = (k, v)" by (cases kv)
  from Cons.prems kv have notin: "k \<notin> fst ` set rest" and dist: "distinct (map fst rest)"
    by simp_all
  have same: "\<And>w. filter (\<lambda>(k', v'). (if k' = k then Some w else constFind props k') \<noteq> Some v') rest
                 = filter (\<lambda>(k', v'). constFind props k' \<noteq> Some v') rest"
    using notin by (intro filter_cong) (auto simp add: image_iff)
  show ?case
  proof (cases "constFind props k")
    case None
    then show ?thesis
      using Cons.IH [OF dist, of "qmap_insert k v props"] same [of v]
      by (simp add: kv constFind_insert case_prod_unfold Let_def)
  next
    case (Some cv)
    then show ?thesis
      using Cons.IH [OF dist, of "qmap_assign k v props"] Cons.IH [OF dist, of props] same [of v]
      by (simp add: kv constFind_assign case_prod_unfold Let_def)
  qed
qed

lemma loop_props:
  "distinct (map fst values) \<Longrightarrow>
   constFind (snd (propertiesChanged_loop values props)) k' =
     (case constFind values k' of Some v \<Rightarrow> Some v | None \<Rightarrow> constFind props k')"
proof (induction "values" arbitrary: props)
  case Nil
  show ?case by (simp add: constFind_def)
next
  case (Cons kv rest)
  obtain k v where kv: "kv = (k, v)" by (cases kv)
  from Cons.prems kv have notin: "k \<notin> fst ` set rest" and dist: "distinct (map fst rest)"
    by simp_all
  have rest_k: "constFind rest k = None"
    using notin by (rule constFind_notin)
  have hd: "constFind ((k, v) # rest) k' = (if k' = k then Some v else constFind rest k')"
    by (simp add: constFind_def)
  show ?case
  proof (cases "constFind props k")
    case None
    then show ?thesis
      using Cons.IH [OF dist, of "qmap_insert k v props"] rest_k
      by (simp add: kv hd constFind_insert case_prod_unfold Let_def split: option.split)
  next
    case (Some cv)
    then show ?thesis
      using Cons.IH [OF dist, of "qmap_assign k v props"] Cons.IH [OF dist, of props] rest_k
      by (auto simp add: kv hd constFind_assign case_prod_unfold Let_def split: option.split)
  qed
qed

lemma constFind_filter_kept:
  "distinct (map fst values) \<Longrightarrow>
   (case constFind (filter (\<lambda>(k, v). constFind props k \<noteq> Some v) values) k' of
      Some v \<Rightarrow> Some v | None \<Rightarrow> constFind props k')
   = (case constFind values k' of Some v \<Rightarrow> Some v | None \<Rightarrow> constFind props k')"
proof (induction "values")
  case Nil
  show ?case by simp
next
  case (Cons kv rest)
  obtain k v where kv: "kv = (k, v)" by (cases kv)
  from Cons.prems kv have notin: "k \<notin> fst ` set rest" and dist: "distinct (map fst rest)"
    by simp_all
  have rest_k: "constFind rest k = None"
    using notin by (rule constFind_notin)
  have "k \<notin> fst ` set (filter (\<lambda>(k, v). constFind props k \<noteq> Some v) rest)"
    using notin by auto
  then have frest_k: "constFind (filter (\<lambda>(k, v). constFind props k \<noteq> Some v) rest) k = None"
    by (rule constFind_notin)
  show ?case
    using Cons.IH [OF dist] rest_k frest_k
    by (auto simp add: kv constFind_def split: option.split)
qed

lemma loop_all_equal:
  "\<forall>(k, v) \<in> set values. constFind props k = Some v \<Longrightarrow>
   propertiesChanged_loop values props = ([], props)"
  by (induction "values") auto

lemma load_pending: "m_pendingLoad b \<noteq> None \<Longrightarrow> load b = (b, [])"
  by (simp add: load_def)

lemma load_idle:
  "m_pendingLoad b = None \<Longrightarrow>
   load b =
     (b\<lparr>m_watcher := True, m_pendingLoad := Some (next_watcher b), next_watcher := Suc (next_watcher b)\<rparr>,
      (if m_watcher b then []
       else [WatchServiceOwner (m_service (m_target b)),
             ConnectPropertiesChanged (m_service (m_target b)) (m_path (m_target b))
               ''org.freedesktop.DBus.Properties'' ''PropertiesChanged'' (m_interface (m_target b))])
      @ [AsyncCall (m_bus (m_target b))
           \<lparr>msg_service = m_service (m_target b), msg_path = m_path (m_target b),
            msg_interface = ''org.freedesktop.DBus.Properties'', msg_member = ''GetAll'',
            msg_arguments = [Str (m_interface (m_target b))]\<rparr>
           (next_watcher b)])"
  by (cases "m_watcher b")
     (simp_all add: load_def Let_def createMethodCall_def propertiesTarget_def withInterface_def
        k_property_interface_def k_properties_changed_signal_name_def)

text \<open>Every reset that a backend emits passes the assertion of
  \<^verbatim>\<open>PropertyCacheThreadData::reset\<close>.\<close>

lemma backend_resets_pass_assertion:
  "EmitReset values error \<in> set (snd (backend_step e b)) \<Longrightarrow>
   \<not> error_isValid error \<or> isEmpty values"
proof (cases e)
  case EvLoad
  assume "EmitReset values error \<in> set (snd (backend_step e b))"
  with EvLoad show ?thesis
    by (cases "m_pendingLoad b = None"; cases "m_watcher b") (auto simp add: load_def Let_def)
next
  case (EvLoadReply w reply)
  assume "EmitReset values error \<in> set (snd (backend_step e b))"
  with EvLoadReply show ?thesis
    by (cases reply)
       (auto simp add: loadReply_def doReset_def Let_def isEmpty_def error_isValid_def
          QDBusError_default_def split: if_splits)
next
  case (EvServiceOwnerChanged service oldOwner newOwner)
  assume "EmitReset values error \<in> set (snd (backend_step e b))"
  with EvServiceOwnerChanged show ?thesis
    by (cases "m_pendingLoad b")
       (auto simp add: serviceOwnerChanged_def doReset_def Let_def isEmpty_def split: if_splits)
next
  case (EvPropertiesChanged interface vals)
  assume "EmitReset values error \<in> set (snd (backend_step e b))"
  with EvPropertiesChanged show ?thesis
    by (cases "m_pendingLoad b = None"; cases "m_watcher b")
       (auto simp add: propertiesChanged_def load_def Let_def case_prod_unfold split: if_splits)
qed

text \<open>
  C2 as stated fails in its last part: \<^verbatim>\<open>emit changeProperties(values)\<close> is not
  guarded. A \<open>PropertiesChanged\<close> that repeats the cached value is filtered to the empty
  map, and the empty map is emitted.
\<close>
theorem propertiesChanged_empty_delta_counterexample:
  "snd (propertiesChanged ''test.service'' [(''str'', Str ''one'')] example_backend)
     = [EmitChangeProperties []]"
  by (simp add: propertiesChanged_def example_backend_def constFind_def)

text \<open>
  C2, amended. On \<open>PropertiesChanged(values)\<close>: while a \<open>GetAll\<close> is pending the backend
  does nothing at all. Otherwise, when it is unavailable, it does what \<^verbatim>\<open>load\<close> does,
  whatever the payload: the property map stays, a \<open>GetAll\<close> is dispatched and becomes the
  pending load. Otherwise the filtered delta is the list of entries whose value differs
  from the cached one (or whose key is not cached); afterwards the property map maps the
  keys of the delta to their new values and every other key as before; and
  \<open>changeProperties(delta)\<close> is emitted in every case, also when the delta is empty.
\<close>
theorem propertiesChanged_cases:
  assumes "distinct (map fst values)"
  shows "(m_pendingLoad b \<noteq> None \<longrightarrow> propertiesChanged interface values b = (b, []))
       \<and> (m_pendingLoad b = None \<and> \<not> m_available b \<longrightarrow>
            propertiesChanged interface values b = load b
          \<and> m_pendingLoad (fst (load b)) = Some (next_watcher b)
          \<and> m_properties (fst (load b)) = m_properties b
          \<and> (\<exists>fx. snd (load b) =
                fx @ [AsyncCall (m_bus (m_target b))
                        \<lparr>msg_service = m_service (m_target b), msg_path = m_path (m_target b),
                         msg_interface = ''org.freedesktop.DBus.Properties'',
                         msg_member = ''GetAll'',
                         msg_arguments = [Str (m_interface (m_target b))]\<rparr>
                        (next_watcher b)]))
       \<and> (m_pendingLoad b = None \<and> m_available b \<longrightarrow>
            (let delta = filter (\<lambda>(k, v). constFind (m_properties b) k \<noteq> Some v) values
             in \<exists>props'.
                  propertiesChanged interface values b =
                    (b\<lparr>m_properties := props'\<rparr>, [EmitChangeProperties delta])
                \<and> (\<forall>k. constFind props' k =
                         (case constFind delta k of
                            Some v \<Rightarrow> Some v
                          | None \<Rightarrow> constFind (m_properties b) k))))"
proof (intro conjI impI)
  assume "m_pendingLoad b \<noteq> None"
  then show "propertiesChanged interface values b = (b, [])"
    by (simp add: propertiesChanged_def)
next
  assume a: "m_pendingLoad b = None \<and> \<not> m_available b"
  then show "propertiesChanged interface values b = load b"
    by (simp add: propertiesChanged_def)
  from a show "m_pendingLoad (fst (load b)) = Some (next_watcher b)"
    by (simp add: load_idle)
  from a show "m_properties (fst (load b)) = m_properties b"
    by (simp add: load_idle)
  from a show "\<exists>fx. snd (load b) =
                fx @ [AsyncCall (m_bus (m_target b))
                        \<lparr>msg_service = m_service (m_target b), msg_path = m_path (m_target b),
                         msg_interface = ''org.freedesktop.DBus.Properties'',
                         msg_member = ''GetAll'',
                         msg_arguments = [Str (m_interface (m_target b))]\<rparr>
                        (next_watcher b)]"
    by (simp add: load_idle)
next
  assume a: "m_pendingLoad b = None \<and> m_available b"
  let ?delta = "filter (\<lambda>(k, v). constFind (m_properties b) k \<noteq> Some v) values"
  let ?props = "snd (propertiesChanged_loop values (m_properties b))"
  have eq: "propertiesChanged interface values b =
              (b\<lparr>m_properties := ?props\<rparr>, [EmitChangeProperties ?delta])"
    using a loop_kept [OF assms, of "m_properties b"]
    by (simp add: propertiesChanged_def case_prod_unfold)
  have look: "\<forall>k. constFind ?props k =
                (case constFind ?delta k of Some v \<Rightarrow> Some v | None \<Rightarrow> constFind (m_properties b) k)"
    using loop_props [OF assms, of "m_properties b"]
      constFind_filter_kept [OF assms, of "m_properties b"]
    by simp
  show "let delta = filter (\<lambda>(k, v). constFind (m_properties b) k \<noteq> Some v) values
        in \<exists>props'.
             propertiesChanged interface values b =
               (b\<lparr>m_properties := props'\<rparr>, [EmitChangeProperties delta])
           \<and> (\<forall>k. constFind props' k =
                    (case constFind delta k of
                       Some v \<Rightarrow> Some v
                     | None \<Rightarrow> constFind (m_properties b) k))"
    unfolding Let_def using eq look by blast
qed

text \<open>The amended C2 at the fourth scenario of the specification: one signal that changes
  two properties.\<close>
theorem propertiesChanged_cases_witness:
  "propertiesChanged ''test.service'' [(''str'', Str ''two''), (''variant'', Num 999)] example_backend
     = (example_backend\<lparr>m_properties := [(''str'', Str ''two''), (''variant'', Num 999)]\<rparr>,
        [EmitChangeProperties [(''str'', Str ''two''), (''variant'', Num 999)]])"
  using propertiesChanged_cases [of "[(''str'', Str ''two''), (''variant'', Num 999)]"
      example_backend "''test.service''"]
  by (simp add: propertiesChanged_def example_backend_def constFind_def)

text \<open>
  C3 as stated fails: nothing between the constructor of \<^verbatim>\<open>PropertyCache\<close> and
  \<^verbatim>\<open>PropertyCacheBackend::load\<close> calls \<^verbatim>\<open>Target::isValid\<close>. The backend made for a
  target on the session bus with an empty interface name (an invalid target) queues
  \<^verbatim>\<open>load\<close>, and \<^verbatim>\<open>load\<close> gives a \<open>GetAll\<close> call to \<^verbatim>\<open>asyncCall\<close>.
\<close>
theorem load_invalid_target_counterexample:
  "Target_isValid
     \<lparr>m_bus = ''qt_default_session_bus'', m_service = ''test.service'',
      m_path = ''/test/service'', m_interface = []\<rparr> = False
   \<and> snd (backend_run [EvLoad]
          (PropertyCacheBackend_new
             \<lparr>m_bus = ''qt_default_session_bus'', m_service = ''test.service'',
              m_path = ''/test/service'', m_interface = []\<rparr>)) =
       [QueuedLoad, WatchServiceOwner ''test.service'',
        ConnectPropertiesChanged ''test.service'' ''/test/service''
          ''org.freedesktop.DBus.Properties'' ''PropertiesChanged'' [],
        AsyncCall ''qt_default_session_bus''
          \<lparr>msg_service = ''test.service'', msg_path = ''/test/service'',
           msg_interface = ''org.freedesktop.DBus.Properties'',
           msg_member = ''GetAll'', msg_arguments = [Str []]\<rparr> 0]"
  by (simp add: Target_isValid_def isEmpty_def PropertyCacheBackend_new_def load_idle)

text \<open>
  C3, amended. For every target, valid or not, the \<^verbatim>\<open>load\<close> queued by the constructor
  of the backend installs the two subscriptions and dispatches one \<open>GetAll(interface)\<close> to
  \<open>org.freedesktop.DBus.Properties\<close> at the service and path of the target. In general
  \<^verbatim>\<open>load\<close> dispatches a \<open>GetAll\<close> whenever none is pending, and does nothing only while one
  is pending.
\<close>
theorem load_dispatches_for_every_target:
  "snd (backend_run [EvLoad] (PropertyCacheBackend_new t)) =
     [QueuedLoad, WatchServiceOwner (m_service t),
      ConnectPropertiesChanged (m_service t) (m_path t)
        ''org.freedesktop.DBus.Properties'' ''PropertiesChanged'' (m_interface t),
      AsyncCall (m_bus t)
        \<lparr>msg_service = m_service t, msg_path = m_path t,
         msg_interface = ''org.freedesktop.DBus.Properties'', msg_member = ''GetAll'',
         msg_arguments = [Str (m_interface t)]\<rparr> 0]
   \<and> (m_pendingLoad b = None \<longrightarrow>
        (\<exists>fx. snd (load b) =
           fx @ [AsyncCall (m_bus (m_target b))
                   \<lparr>msg_service = m_service (m_target b), msg_path = m_path (m_target b),
                    msg_interface = ''org.freedesktop.DBus.Properties'', msg_member = ''GetAll'',
                    msg_arguments = [Str (m_interface (m_target b))]\<rparr>
                   (next_watcher b)]))
   \<and> (m_pendingLoad b \<noteq> None \<longrightarrow> load b = (b, []))"
  by (simp add: PropertyCacheBackend_new_def load_idle load_pending)

text \<open>The amended C3 at the target of the test suite: the first load, and a second one
  while the first is pending.\<close>
theorem load_dispatches_for_every_target_witness:
  "snd (load (fst (PropertyCacheBackend_new example_target))) =
     [WatchServiceOwner ''test.service'',
      ConnectPropertiesChanged ''test.service'' ''/test/service''
        ''org.freedesktop.DBus.Properties'' ''PropertiesChanged'' ''test.service'',
      AsyncCall ''qt_default_session_bus''
        \<lparr>msg_service = ''test.service'', msg_path = ''/test/service'',
         msg_interface = ''org.freedesktop.DBus.Properties'', msg_member = ''GetAll'',
         msg_arguments = [Str ''test.service'']\<rparr> 0]
   \<and> load (fst (load (fst (PropertyCacheBackend_new example_target))))
       = (fst (load (fst (PropertyCacheBackend_new example_target))), [])"
  using load_dispatches_for_every_target [where t = example_target
      and b = "fst (PropertyCacheBackend_new example_target)"]
    load_dispatches_for_every_target [where t = example_target
      and b = "fst (load (fst (PropertyCacheBackend_new example_target)))"]
  by (simp add: PropertyCacheBackend_new_def load_idle example_target_def)

lemma doReset_invariants:
  "error_isValid error \<longrightarrow> properties = [] \<Longrightarrow>
   B1 (fst (doReset properties error b)) \<and> B2 (fst (doReset properties error b))"
  by (auto simp add: doReset_def B1_def B2_def isEmpty_def)

lemma load_invariants: "B1 b \<and> B2 b \<Longrightarrow> B1 (fst (load b)) \<and> B2 (fst (load b))"
  by (cases "m_pendingLoad b = None") (simp_all add: load_idle load_pending B1_def B2_def)

lemma loadReply_invariants:
  "B1 b \<and> B2 b \<Longrightarrow> B1 (fst (loadReply w reply b)) \<and> B2 (fst (loadReply w reply b))"
proof (cases "Some w = m_pendingLoad b")
  case False
  assume "B1 b \<and> B2 b"
  with False show ?thesis by (simp add: loadReply_def)
next
  case True
  show ?thesis
  proof (cases reply)
    case (Inl err)
    have "B1 (fst (doReset [] err (b\<lparr>m_pendingLoad := None\<rparr>)))
        \<and> B2 (fst (doReset [] err (b\<lparr>m_pendingLoad := None\<rparr>)))"
      by (rule doReset_invariants) simp
    with True Inl show ?thesis
      by (simp add: loadReply_def case_prod_unfold Let_def)
  next
    case (Inr val)
    have "B1 (fst (doReset val QDBusError_default (b\<lparr>m_pendingLoad := None\<rparr>)))
        \<and> B2 (fst (doReset val QDBusError_default (b\<lparr>m_pendingLoad := None\<rparr>)))"
      by (rule doReset_invariants) (simp add: error_isValid_def QDBusError_default_def)
    with True Inr show ?thesis
      by (simp add: loadReply_def case_prod_unfold Let_def)
  qed
qed

lemma serviceOwnerChanged_invariants:
  "B1 b \<and> B2 b \<Longrightarrow>
   B1 (fst (serviceOwnerChanged service oldOwner newOwner b))
   \<and> B2 (fst (serviceOwnerChanged service oldOwner newOwner b))"
  by (cases "m_pendingLoad b")
     (auto simp add: serviceOwnerChanged_def doReset_def B1_def B2_def isEmpty_def
        error_isValid_def Let_def)

lemma propertiesChanged_invariants:
  "B1 b \<and> B2 b \<Longrightarrow>
   B1 (fst (propertiesChanged interface values b)) \<and> B2 (fst (propertiesChanged interface values b))"
proof -
  assume inv: "B1 b \<and> B2 b"
  consider "m_pendingLoad b \<noteq> None" | "m_pendingLoad b = None" "\<not> m_available b"
    | "m_pendingLoad b = None" "m_available b"
    by blast
  then show ?thesis
  proof cases
    case 1
    with inv show ?thesis by (simp add: propertiesChanged_def)
  next
    case 2
    with inv load_invariants [of b] show ?thesis by (simp add: propertiesChanged_def)
  next
    case 3
    with inv show ?thesis
      by (simp add: propertiesChanged_def case_prod_unfold Let_def B1_def B2_def)
  qed
qed

lemma backend_step_invariants:
  "B1 b \<and> B2 b \<Longrightarrow> B1 (fst (backend_step e b)) \<and> B2 (fst (backend_step e b))"
  by (cases e)
     (simp_all only: backend_step.simps load_invariants loadReply_invariants
        serviceOwnerChanged_invariants propertiesChanged_invariants simp_thms)

lemma backend_run_invariants:
  "B1 (fst s) \<and> B2 (fst s) \<Longrightarrow> B1 (fst (backend_run es s)) \<and> B2 (fst (backend_run es s))"
proof (induction es arbitrary: s)
  case Nil
  then show ?case by simp
next
  case (Cons e es)
  have "B1 (fst (backend_step e (fst s))) \<and> B2 (fst (backend_step e (fst s)))"
    using Cons.prems by (rule backend_step_invariants)
  then have "B1 (fst (fst (backend_step e (fst s)), snd s @ snd (backend_step e (fst s))))
           \<and> B2 (fst (fst (backend_step e (fst s)), snd s @ snd (backend_step e (fst s))))"
    by simp
  from Cons.IH [OF this] show ?case
    by (simp add: case_prod_unfold Let_def)
qed

lemma new_invariants:
  "B1 (fst (PropertyCacheBackend_new t)) \<and> B2 (fst (PropertyCacheBackend_new t))"
  by (simp add: PropertyCacheBackend_new_def B1_def B2_def isEmpty_def)

text \<open>
  C4. The invariants B1 (available implies no error) and B2 (not available implies an
  empty property map) hold for a new backend, are kept by every reaction of the backend
  (a load, a load reply, a change of the service owner, a \<open>PropertiesChanged\<close>), and so
  hold after every sequence of events.
\<close>
theorem backend_invariants:
  "B1 (fst (PropertyCacheBackend_new t)) \<and> B2 (fst (PropertyCacheBackend_new t))
   \<and> (B1 b \<and> B2 b \<longrightarrow> B1 (fst (backend_step e b)) \<and> B2 (fst (backend_step e b)))
   \<and> B1 (fst (backend_run es (PropertyCacheBackend_new t)))
   \<and> B2 (fst (backend_run es (PropertyCacheBackend_new t)))"
  using new_invariants [of t] backend_step_invariants [of b e]
    backend_run_invariants [OF new_invariants, of es t]
  by blast

text \<open>
  C4 after a successful load (available, so no error) and after the service has then
  gone away (not available, so no properties).
\<close>
theorem backend_invariants_witness:
  "m_available (fst (backend_run
       [EvLoad, EvLoadReply 0 (Inr [(''str'', Str ''hello'')])]
       (PropertyCacheBackend_new example_target))) = True
   \<and> error_isValid (m_error (fst (backend_run
       [EvLoad, EvLoadReply 0 (Inr [(''str'', Str ''hello'')])]
       (PropertyCacheBackend_new example_target)))) = False
   \<and> m_available (fst (backend_run
       [EvLoad, EvLoadReply 0 (Inr [(''str'', Str ''hello'')]), EvServiceOwnerChanged ''test.service'' '':1.5'' []]
       (PropertyCacheBackend_new example_target))) = False
   \<and> m_properties (fst (backend_run
       [EvLoad, EvLoadReply 0 (Inr [(''str'', Str ''hello'')]), EvServiceOwnerChanged ''test.service'' '':1.5'' []]
       (PropertyCacheBackend_new example_target))) = []"
  using backend_invariants [where t = example_target
      and b = "fst (PropertyCacheBackend_new example_target)" and e = EvLoad
      and es = "[EvLoad, EvLoadReply 0 (Inr [(''str'', Str ''hello'')])]"]
    backend_invariants [where t = example_target
      and b = "fst (PropertyCacheBackend_new example_target)" and e = EvLoad
      and es = "[EvLoad, EvLoadReply 0 (Inr [(''str'', Str ''hello'')]),
                 EvServiceOwnerChanged ''test.service'' '':1.5'' []]"]
  by (simp add: PropertyCacheBackend_new_def load_idle loadReply_def doReset_def
        serviceOwnerChanged_def isEmpty_def error_isValid_def QDBusError_default_def)

lemma no_change_same_map:
  "distinct (map fst values) \<Longrightarrow>
   [PropertyChanged k v. (k, v) \<leftarrow> values, constFind values k \<noteq> Some v] = []"
proof -
  assume d: "distinct (map fst values)"
  have "\<forall>kv \<in> set values. constFind values (fst kv) = Some (snd kv)"
    using d by (simp add: constFind_def)
  then show ?thesis
    by (induction "values") (auto simp add: case_prod_unfold)
qed

lemma no_removal_same_map:
  "[PropertyChanged k Invalid. (k, v) \<leftarrow> values, constFind values k = None] = []"
proof -
  have "\<forall>kv \<in> set values. constFind values (fst kv) \<noteq> None"
    by (auto simp add: constFind_def map_of_eq_None_iff)
  then show ?thesis
    by (induction "values") (auto simp add: case_prod_unfold)
qed

lemma reset_again:
  assumes "distinct (map fst values)"
    and "\<not> error_isValid error \<or> isEmpty values"
    and "td_properties d1 = values" and "td_error d1 = error"
    and "td_available d1 = (\<not> error_isValid error)"
  shows "reset values error d1 = Some (reset_body values error d1)
       \<and> fst (reset_body values error d1) = d1
       \<and> map signal (snd (reset_body values error d1)) =
           (if values = [] then [] else [PropertiesReset values])"
proof -
  have a: "reset values error d1 = Some (reset_body values error d1)"
    using assms(2) by (simp add: reset_def)
  have b: "fst (reset_body values error d1) = d1"
    using assms(3,4,5) by (simp add: fst_reset_body)
  have c: "map signal (snd (reset_body values error d1)) =
           (if values = [] then [] else [PropertiesReset values])"
    using assms(3,4,5) no_change_same_map [OF assms(1)] no_removal_same_map [of "values"]
    by (simp add: signals_reset_body)
  from a b c show ?thesis by simp
qed

section \<open>Backend and thread data stay in step\<close>

lemma replay_append: "replay (q @ q') props = replay q' (replay q props)"
  by (induction q props rule: replay.induct) simp_all

lemma queue_ok_append:
  "queue_ok (q @ q') props = (queue_ok q props \<and> queue_ok q' (replay q props))"
  by (induction q props rule: queue_ok.induct) simp_all

lemma loop_is_update:
  "snd (propertiesChanged_loop values props) =
     changeProperties_update (fst (propertiesChanged_loop values props)) props"
proof (induction "values" arbitrary: props)
  case Nil
  show ?case by simp
next
  case (Cons kv rest)
  obtain k v where kv: "kv = (k, v)" by (cases kv)
  show ?case
  proof (cases "constFind props k")
    case None
    then show ?thesis
      using Cons.IH [of "qmap_insert k v props"]
      by (simp add: kv case_prod_unfold Let_def qmap_set_def)
  next
    case (Some cv)
    then show ?thesis
      using Cons.IH [of "qmap_assign k v props"] Cons.IH [of props]
      by (simp add: kv case_prod_unfold Let_def qmap_set_def)
  qed
qed

lemma loop_not_redundant:
  "fst (propertiesChanged_loop values props) \<noteq> [] \<Longrightarrow>
   \<not> redundant (fst (propertiesChanged_loop values props)) props"
proof (induction "values")
  case Nil
  then show ?case by simp
next
  case (Cons kv rest)
  obtain k v where kv: "kv = (k, v)" by (cases kv)
  show ?case
  proof (cases "constFind props k = Some v")
    case True
    with Cons show ?thesis by (simp add: kv)
  next
    case False
    then show ?thesis
      by (cases "constFind props k")
         (simp_all add: kv case_prod_unfold Let_def redundant_def)
  qed
qed

lemma backend_step_signals:
  "queue_ok (filter is_signal (snd (backend_step e b))) (m_properties b)
   \<and> replay (filter is_signal (snd (backend_step e b))) (m_properties b)
       = m_properties (fst (backend_step e b))"
proof (cases e)
  case EvLoad
  then show ?thesis
    by (cases "m_pendingLoad b = None") (simp_all add: load_idle load_pending)
next
  case (EvLoadReply w reply)
  then show ?thesis
    by (cases reply)
       (simp_all add: loadReply_def doReset_def Let_def isEmpty_def error_isValid_def
          QDBusError_default_def)
next
  case (EvServiceOwnerChanged service oldOwner newOwner)
  then show ?thesis
    by (cases "m_pendingLoad b")
       (simp_all add: serviceOwnerChanged_def doReset_def Let_def isEmpty_def)
next
  case (EvPropertiesChanged interface vals)
  consider "m_pendingLoad b \<noteq> None" | "m_pendingLoad b = None" "\<not> m_available b"
    | "m_pendingLoad b = None" "m_available b"
    by blast
  then show ?thesis
  proof cases
    case 1
    with EvPropertiesChanged show ?thesis by (simp add: propertiesChanged_def)
  next
    case 2
    with EvPropertiesChanged show ?thesis by (simp add: propertiesChanged_def load_idle)
  next
    case 3
    with EvPropertiesChanged show ?thesis
      using loop_is_update [of vals "m_properties b"] loop_not_redundant [of vals "m_properties b"]
      by (auto simp add: propertiesChanged_def case_prod_unfold Let_def)
  qed
qed

lemma properties_changeProperties:
  "td_properties (fst (changeProperties delta d)) = changeProperties_update delta (td_properties d)"
  by (simp add: changeProperties_delivery)

lemma initialize_keeps_properties:
  "td_properties (fst (snd (PropertyCachePrivate_initialize q p d))) = td_properties d"
  by (cases "initialized p") (simp_all add: initialize_fresh initialize_again)

lemma system_step_in_sync:
  assumes "in_sync s"
  shows "\<exists>s'. system_step ev s = Some s' \<and> in_sync s'"
proof (cases ev)
  case (EvAtBackend e)
  have "queue_ok (filter is_signal (snd (backend_step e (sys_backend s)))) (m_properties (sys_backend s))
   \<and> replay (filter is_signal (snd (backend_step e (sys_backend s)))) (m_properties (sys_backend s))
       = m_properties (fst (backend_step e (sys_backend s)))"
    by (rule backend_step_signals)
  with assms EvAtBackend show ?thesis
    by (simp add: in_sync_def case_prod_unfold Let_def queue_ok_append replay_append)
next
  case EvDeliver
  show ?thesis
  proof (cases "sys_queue s")
    case Nil
    with assms EvDeliver show ?thesis by simp
  next
    case (Cons sg rest)
    show ?thesis
    proof (cases sg)
      case (EmitReset vals err)
      with assms Cons have ok: "\<not> error_isValid err \<or> isEmpty vals"
        by (simp add: in_sync_def)
      then have "reset vals err (sys_data s) = Some (reset_body vals err (sys_data s))"
        by (simp add: reset_def)
      with assms Cons EmitReset EvDeliver show ?thesis
        by (simp add: in_sync_def case_prod_unfold fst_reset_body)
    next
      case (EmitChangeProperties delta)
      with assms Cons EvDeliver show ?thesis
        by (simp add: in_sync_def case_prod_unfold properties_changeProperties)
    qed (use assms Cons EvDeliver in \<open>simp_all add: in_sync_def\<close>)
  qed
next
  case (EvInitialize q)
  with assms show ?thesis
    using initialize_keeps_properties [of q "\<lparr>initialized = False\<rparr>" "sys_data s"]
    by (simp add: in_sync_def case_prod_unfold Let_def)
qed

lemma system_run_in_sync:
  "in_sync s \<Longrightarrow> \<exists>s'. system_run evs s = Some s' \<and> in_sync s'"
proof (induction evs arbitrary: s)
  case Nil
  then show ?case by simp
next
  case (Cons ev evs)
  from system_step_in_sync [OF Cons.prems, of ev]
  obtain s1 where s1: "system_step ev s = Some s1" "in_sync s1" by blast
  from Cons.IH [OF s1(2)] s1(1) show ?case by simp
qed

lemma System_new_in_sync: "in_sync (System_new t es)"
  by (simp add: System_new_def in_sync_def Let_def PropertyCacheThreadData_new_def)

lemma redundant_delivery:
  assumes "system_run evs (System_new t es) = Some s"
    and "sys_queue s = EmitChangeProperties delta # rest"
    and "redundant delta (td_properties (sys_data s))"
  shows "delta = [] \<and> system_step EvDeliver s = Some (s\<lparr>sys_queue := rest\<rparr>)"
proof -
  from system_run_in_sync [OF System_new_in_sync, of evs t es] assms(1)
  have "in_sync s" by simp
  with assms(2,3) have e: "delta = []"
    by (auto simp add: in_sync_def)
  have "system_step EvDeliver s = Some (s\<lparr>sys_queue := rest\<rparr>)"
    using assms(2) e by (simp add: changeProperties_def reemitted_def)
  with e show ?thesis by simp
qed

lemma example_system_reached:
  "system_run
     [EvInitialize 7, EvAtBackend (EvPropertiesChanged ''test.service'' [(''str'', Str ''hello'')])]
     (System_new example_target [EvLoad, EvLoadReply 0 (Inr [(''str'', Str ''hello'')])])
   = Some example_system"
  by (simp add: System_new_def PropertyCacheBackend_new_def load_idle loadReply_def doReset_def
        propertiesChanged_def PropertyCacheThreadData_new_def initialize_fresh
        example_system_def data_ready_def example_target_def constFind_def
        error_isValid_def QDBusError_default_def Let_def)

text \<open>
  C8. Redundant updates. When a reset has been delivered, a second reset with the same
  payload returns, leaves the state as it is and emits no \<open>propertyChanged\<close> (all it emits
  is \<open>propertiesReset\<close>, when the map is not empty). When, in any state that a backend,
  its thread data object and the handles of the thread can reach, the thread data is
  delivered a \<open>changeProperties(delta)\<close> whose entries all equal the values it caches, the
  delivery leaves the thread data as it is and emits nothing, and no handle emits
  anything. (The slot itself compares nothing; such a delta is the empty one, because the
  backend drops the entries that equal its cache and the thread data follows the backend
  signal by signal.) At the backend, a \<open>PropertiesChanged\<close> whose entries all equal the
  cached values leaves the backend state as it is, and the delta emitted for it is the
  empty one, for which no thread data object changes or emits anything.
\<close>

theorem redundant_updates_are_silent:
  assumes "distinct (map fst values)"
  shows "(case reset values error d of
            None \<Rightarrow> True
          | Some (d1, log1) \<Rightarrow>
              (case reset values error d1 of
                 None \<Rightarrow> False
               | Some (d2, log2) \<Rightarrow>
                   d2 = d1
                 \<and> filter (\<lambda>sg. kind sg = KPropertyChanged) (map signal log2) = []
                 \<and> map signal log2 = (if values = [] then [] else [PropertiesReset values])))
       \<and> (system_run evs (System_new t es) = Some s
            \<and> sys_queue s = EmitChangeProperties delta # rest
            \<and> redundant delta (td_properties (sys_data s)) \<longrightarrow>
            deliver (EmitChangeProperties delta) (sys_data s) = Some (sys_data s, [])
          \<and> system_step EvDeliver s = Some (s\<lparr>sys_queue := rest\<rparr>)
          \<and> map_option sys_signals (system_step EvDeliver s) = Some (sys_signals s))
       \<and> (m_pendingLoad b = None \<and> m_available b
            \<and> (\<forall>(k, v) \<in> set changed. constFind (m_properties b) k = Some v) \<longrightarrow>
            propertiesChanged interface changed b = (b, [EmitChangeProperties []])
          \<and> (\<forall>fx \<in> set (snd (propertiesChanged interface changed b)).
                \<forall>td. \<exists>log. deliver fx td = Some (td, log) \<and> log = []
                      \<and> reemitted (td_connections td) log = []))"
proof (intro conjI impI)
  show "case reset values error d of
            None \<Rightarrow> True
          | Some (d1, log1) \<Rightarrow>
              (case reset values error d1 of
                 None \<Rightarrow> False
               | Some (d2, log2) \<Rightarrow>
                   d2 = d1
                 \<and> filter (\<lambda>sg. kind sg = KPropertyChanged) (map signal log2) = []
                 \<and> map signal log2 = (if values = [] then [] else [PropertiesReset values]))"
  proof (cases "\<not> error_isValid error \<or> isEmpty values")
    case False
    then show ?thesis by (simp add: reset_def)
  next
    case True
    let ?d1 = "fst (reset_body values error d)"
    have first: "reset values error d = Some (?d1, snd (reset_body values error d))"
      using True by (simp add: reset_def)
    have "reset values error ?d1 = Some (reset_body values error ?d1)
        \<and> fst (reset_body values error ?d1) = ?d1
        \<and> map signal (snd (reset_body values error ?d1)) =
            (if values = [] then [] else [PropertiesReset values])"
      using assms True by (intro reset_again) (simp_all add: fst_reset_body)
    then have second: "reset values error ?d1 = Some (?d1, snd (reset_body values error ?d1))"
      and sigs: "map signal (snd (reset_body values error ?d1)) =
            (if values = [] then [] else [PropertiesReset values])"
      by (simp_all add: prod_eq_iff)
    show ?thesis
      by (simp only: first second sigs option.case prod.case) simp
  qed
next
  assume a: "system_run evs (System_new t es) = Some s
            \<and> sys_queue s = EmitChangeProperties delta # rest
            \<and> redundant delta (td_properties (sys_data s))"
  then have r: "delta = [] \<and> system_step EvDeliver s = Some (s\<lparr>sys_queue := rest\<rparr>)"
    by (intro redundant_delivery [of evs t es s delta rest]) simp_all
  from r show "deliver (EmitChangeProperties delta) (sys_data s) = Some (sys_data s, [])"
    by (simp add: changeProperties_def)
  from r show "system_step EvDeliver s = Some (s\<lparr>sys_queue := rest\<rparr>)"
    by simp
  from r show "map_option sys_signals (system_step EvDeliver s) = Some (sys_signals s)"
    by simp
next
  assume a: "m_pendingLoad b = None \<and> m_available b
            \<and> (\<forall>(k, v) \<in> set changed. constFind (m_properties b) k = Some v)"
  then have eq: "propertiesChanged interface changed b = (b, [EmitChangeProperties []])"
    using loop_all_equal [of changed "m_properties b"]
    by (simp add: propertiesChanged_def)
  then show "propertiesChanged interface changed b = (b, [EmitChangeProperties []])" .
  show "\<forall>fx \<in> set (snd (propertiesChanged interface changed b)).
                \<forall>td. \<exists>log. deliver fx td = Some (td, log) \<and> log = []
                      \<and> reemitted (td_connections td) log = []"
    by (simp add: eq changeProperties_def reemitted_def)
qed

text \<open>C8 at the available thread data of the examples, at the example system and at the
  example backend.\<close>

theorem redundant_updates_are_silent_witness:
  "map_option (\<lambda>r. map signal (snd r)) (reset [(''str'', Str ''hello'')] QDBusError_default data_ready)
     = Some [PropertiesReset [(''str'', Str ''hello'')]]
   \<and> system_step EvDeliver example_system = Some (example_system\<lparr>sys_queue := []\<rparr>)
   \<and> propertiesChanged ''test.service'' [(''str'', Str ''one'')] example_backend
     = (example_backend, [EmitChangeProperties []])"
  using redundant_updates_are_silent [of "[(''str'', Str ''hello'')]" QDBusError_default
      data_loading
      "[EvInitialize 7, EvAtBackend (EvPropertiesChanged ''test.service'' [(''str'', Str ''hello'')])]"
      example_target "[EvLoad, EvLoadReply 0 (Inr [(''str'', Str ''hello'')])]"
      example_system "[]" "[]"
      example_backend "[(''str'', Str ''one'')]" "''test.service''"]
    example_system_reached
  by (simp add: reset_def fst_reset_body data_loading_def data_ready_def isEmpty_def
        error_isValid_def QDBusError_default_def example_backend_def constFind_def
        redundant_def example_system_def
        prod_eq_iff split: option.splits prod.splits)

end
